theory Spec2Isabelle
  imports Complex_Main "HOL-Library.AList"
begin

section \<open>The IMDb / box-office notebook as HOL functions\<close>

text \<open>
  The notebook \<^verbatim>\<open>imdb_analysis.ipynb\<close> is a linear script of Spark dataframe operations.
  A dataframe is modelled as the list of its rows, a row as a record of its columns and a
  nullable column as an \<open>option\<close> (\<open>None\<close> is SQL \<open>NULL\<close>). The Spark column functions the
  notebook calls (\<^verbatim>\<open>split\<close>, \<^verbatim>\<open>array_intersect\<close>, \<^verbatim>\<open>element_at\<close>, the inner join, ...) are
  written out with the behaviour Spark documents for them under its default session
  configuration of the classic runtime (ANSI mode off: a failed cast or an index past the
  end of an array gives \<open>NULL\<close>).
\<close>

subsection \<open>The genre vocabulary (cell "Define List of Movie Genres")\<close>

definition genres :: "string list" where
  "genres =
    [''Action'', ''Adventure'', ''Comedy'', ''Drama'', ''Fantasy'', ''Horror'', ''Mystery'',
     ''Romance'', ''Science Fiction'', ''Thriller'', ''Western'', ''Animation'', ''Crime'',
     ''Documentary'', ''Family'', ''Musical'', ''War'', ''Historical'', ''Sports'',
     ''Biography'']"

subsection \<open>Spark column functions used on the title rows\<close>

text \<open>
  The errors of the Spark session that the model follows: an array index of zero, a cast of
  a malformed text under ANSI mode, a column that the dataframe does not have, a table name
  that the catalog's parser rejects, and a file whose table cannot be read or saved.
\<close>

datatype spark_error =
    InvalidIndex
  | CastInvalidInput string
  | UnresolvedColumn string
  | ParseException string
  | LoadFailure string

text \<open>
  \<^verbatim>\<open>split(col, ",")\<close>: the text between the separators, empty pieces kept (Spark passes the
  limit \<open>-1\<close>), so the empty string splits into one empty piece.
\<close>

fun split_on :: "char \<Rightarrow> string \<Rightarrow> string list" where
  "split_on c [] = [[]]"
| "split_on c (x # xs) =
     (if x = c then [] # split_on c xs
      else (case split_on c xs of
              [] \<Rightarrow> [[x]]
            | w # ws \<Rightarrow> (x # w) # ws))"

definition spark_split :: "string option \<Rightarrow> char \<Rightarrow> string list option" where
  "spark_split s c = (case s of None \<Rightarrow> None | Some t \<Rightarrow> Some (split_on c t))"

text \<open>
  \<^verbatim>\<open>array_intersect(a, b)\<close>: the elements of \<open>a\<close> that occur in \<open>b\<close>, in the order of \<open>a\<close>, each
  once (its first occurrence); \<open>NULL\<close> when either array is \<open>NULL\<close>.
\<close>

fun intersect_from :: "'a list \<Rightarrow> 'a list \<Rightarrow> 'a list \<Rightarrow> 'a list" where
  "intersect_from seen [] ys = []"
| "intersect_from seen (x # xs) ys =
     (if x \<in> set ys \<and> x \<notin> set seen then x # intersect_from (x # seen) xs ys
      else intersect_from seen xs ys)"

definition array_intersect :: "'a list option \<Rightarrow> 'a list option \<Rightarrow> 'a list option" where
  "array_intersect a b =
     (case a of None \<Rightarrow> None
      | Some xs \<Rightarrow> (case b of None \<Rightarrow> None | Some ys \<Rightarrow> Some (intersect_from [] xs ys)))"

text \<open>
  \<^verbatim>\<open>element_at(array, index)\<close>: one-based; a negative index counts from the end; index 0 is
  an error; \<open>NULL\<close> for a \<open>NULL\<close> array and for an index past the end.
\<close>

definition element_at :: "'a list option \<Rightarrow> int \<Rightarrow> spark_error + 'a option" where
  "element_at a i =
     (if i = 0 then Inl InvalidIndex
      else (case a of None \<Rightarrow> Inr None
            | Some xs \<Rightarrow>
                (if int (length xs) < \<bar>i\<bar> then Inr None
                 else if 0 < i then Inr (Some (xs ! nat (i - 1)))
                 else Inr (Some (xs ! nat (int (length xs) + i))))))"

subsection \<open>The catalog query (cell "Transform and Clean OMDB Data for Analysis")\<close>

text \<open>
  The bulk loader reads every file without a schema, so every column of the two catalog
  tables is text. Only the columns the query names are kept in the model.
\<close>

record title_basics =
  tb_tconst :: "string option"
  tb_titleType :: "string option"
  tb_primaryTitle :: "string option"
  tb_isAdult :: "string option"
  tb_runtimeMinutes :: "string option"
  tb_genres :: "string option"

record title_ratings =
  tr_tconst :: "string option"
  tr_averageRating :: "string option"
  tr_numVotes :: "string option"

record title_core =
  tconst :: "string option"
  primaryTitle :: "string option"
  runtimeMinutes :: "string option"
  averageRating :: "string option"
  numVotes :: "string option"

record imdb_row = title_core +
  genres_col :: "string option"

record title_row = title_core +
  Primary_Genre :: "string option"

text \<open>SQL equality: true only when both sides are present and equal.\<close>

definition sql_eq :: "'a option \<Rightarrow> 'a option \<Rightarrow> bool" where
  "sql_eq a b = (case a of None \<Rightarrow> False | Some x \<Rightarrow> (case b of None \<Rightarrow> False | Some y \<Rightarrow> x = y))"

definition imdb_where :: "title_basics \<Rightarrow> bool" where
  "imdb_where tb = (sql_eq (tb_titleType tb) (Some ''movie'') \<and> sql_eq (tb_isAdult tb) (Some ''0''))"

definition imdb_select :: "title_basics \<Rightarrow> title_ratings \<Rightarrow> imdb_row" where
  "imdb_select tb tr =
     \<lparr> tconst = tb_tconst tb, primaryTitle = tb_primaryTitle tb,
       runtimeMinutes = tb_runtimeMinutes tb, averageRating = tr_averageRating tr,
       numVotes = tr_numVotes tr, genres_col = tb_genres tb \<rparr>"

definition imdb_query :: "title_basics list \<Rightarrow> title_ratings list \<Rightarrow> imdb_row list" where
  "imdb_query basics ratings =
     concat (map (\<lambda>tb. map (imdb_select tb)
                          (filter (\<lambda>tr. sql_eq (tb_tconst tb) (tr_tconst tr) \<and> imdb_where tb) ratings))
                 basics)"

subsection \<open>The derived primary genre\<close>

definition primary_genre :: "string option \<Rightarrow> spark_error + string option" where
  "primary_genre g =
     (let GenreArray = spark_split g (CHR '','');
          Matches = array_intersect GenreArray (Some genres)
      in element_at Matches 1)"

definition with_primary_genre :: "imdb_row \<Rightarrow> spark_error + title_row" where
  "with_primary_genre r =
     (case primary_genre (genres_col r) of
        Inl e \<Rightarrow> Inl e
      | Inr p \<Rightarrow> Inr \<lparr> tconst = tconst r, primaryTitle = primaryTitle r,
                       runtimeMinutes = runtimeMinutes r, averageRating = averageRating r,
                       numVotes = numVotes r, Primary_Genre = p \<rparr>)"

text \<open>A column expression that fails fails the whole dataframe.\<close>

fun map_rows :: "('a \<Rightarrow> spark_error + 'b) \<Rightarrow> 'a list \<Rightarrow> spark_error + 'b list" where
  "map_rows f [] = Inr []"
| "map_rows f (r # rs) =
     (case f r of
        Inl e \<Rightarrow> Inl e
      | Inr t \<Rightarrow> (case map_rows f rs of Inl e \<Rightarrow> Inl e | Inr ts \<Rightarrow> Inr (t # ts)))"

definition imdb_df :: "title_basics list \<Rightarrow> title_ratings list \<Rightarrow> spark_error + title_row list" where
  "imdb_df basics ratings = map_rows with_primary_genre (imdb_query basics ratings)"

subsection \<open>Text helpers\<close>

definition is_digit :: "char \<Rightarrow> bool" where
  "is_digit c = (c \<in> set ''0123456789'')"

definition digit_val :: "char \<Rightarrow> nat" where
  "digit_val c = of_char c - 48"

definition dec_value :: "string \<Rightarrow> nat" where
  "dec_value ds = foldl (\<lambda>a c. 10 * a + digit_val c) 0 ds"

definition is_hex_digit :: "char \<Rightarrow> bool" where
  "is_hex_digit c = (c \<in> set ''0123456789abcdefABCDEF'')"

definition hex_digit_val :: "char \<Rightarrow> nat" where
  "hex_digit_val c =
     (if is_digit c then of_char c - 48
      else if c \<in> set ''abcdef'' then of_char c - 87
      else of_char c - 55)"

definition hex_value :: "string \<Rightarrow> nat" where
  "hex_value ds = foldl (\<lambda>a c. 16 * a + hex_digit_val c) 0 ds"

definition to_lower :: "char \<Rightarrow> char" where
  "to_lower c =
     (case map_of (zip ''ABCDEFGHIJKLMNOPQRSTUVWXYZ'' ''abcdefghijklmnopqrstuvwxyz'') c of
        None \<Rightarrow> c
      | Some l \<Rightarrow> l)"

text \<open>Java's \<^verbatim>\<open>String.trim\<close>: characters up to the space (code 32) go, at both ends.\<close>

definition is_space :: "char \<Rightarrow> bool" where
  "is_space c = ((of_char c :: nat) \<le> 32)"

definition java_trim :: "string \<Rightarrow> string" where
  "java_trim s = rev (dropWhile is_space (rev (dropWhile is_space s)))"

subsection \<open>Single-precision values and the cast from text\<close>

text \<open>
  A Spark \<^verbatim>\<open>float\<close> is an IEEE binary32 value. \<open>Finite x\<close> is the binary32 value that is
  exactly the rational \<open>x\<close>; the cast only builds it from \<open>binary32_round\<close>, which rounds
  to the nearest representable value, ties to even.

  Spark casts a text column to \<^verbatim>\<open>float\<close> with Java's \<^verbatim>\<open>Float.parseFloat\<close>; when that throws its
  \<^verbatim>\<open>NumberFormatException\<close>, the cast tries the names of the special values, and with ANSI mode
  off the result is \<open>NULL\<close> when that fails too. The parser below follows
  \<^verbatim>\<open>Float.parseFloat\<close>: the text is trimmed, and read as a signed \<^verbatim>\<open>NaN\<close>, \<^verbatim>\<open>Infinity\<close>,
  hexadecimal or decimal literal.
\<close>

datatype spark_float = Finite rat | NegZero | PosInf | NegInf | NaN

text \<open>The number of binary digits of a natural number.\<close>

fun bit_length :: "nat \<Rightarrow> nat" where
  "bit_length n = (if n = 0 then 0 else Suc (bit_length (n div 2)))"

declare bit_length.simps [simp del]

text \<open>\<open>floor_log2 p q\<close> is the integer \<open>e\<close> with \<open>2^e \<le> p/q < 2^(e+1)\<close>, for positive \<open>p\<close>, \<open>q\<close>.\<close>

definition floor_log2 :: "nat \<Rightarrow> nat \<Rightarrow> int" where
  "floor_log2 p q =
     (let d = int (bit_length p) - int (bit_length q)
      in if (if 0 \<le> d then q * 2 ^ nat d \<le> p else q \<le> p * 2 ^ nat (- d)) then d else d - 1)"

text \<open>
  The magnitude \<open>p/q\<close> rounded to binary32: the unit in the last place is \<open>2^u\<close> with
  \<open>u = max e (-126) - 23\<close> (24 significant bits, subnormals below \<open>2^(-126)\<close>); \<open>None\<close> is
  overflow (the rounded magnitude reaches \<open>2^128\<close>).
\<close>

definition binary32_round :: "nat \<Rightarrow> nat \<Rightarrow> rat option" where
  "binary32_round p q =
     (if p = 0 then Some 0
      else
        let u = max (floor_log2 p q) (- 126) - 23;
            n = (if 0 \<le> u then p else p * 2 ^ nat (- u));
            d = (if 0 \<le> u then q * 2 ^ nat u else q);
            k = n div d;
            r = n mod d;
            k' = (if d < 2 * r \<or> (2 * r = d \<and> odd k) then k + 1 else k);
            v = (if 0 \<le> u then of_nat (k' * 2 ^ nat u) else of_nat k' / of_nat (2 ^ nat (- u)))
        in if 2 ^ 128 \<le> v then None else Some v)"

definition to_float :: "bool \<Rightarrow> nat \<Rightarrow> nat \<Rightarrow> spark_float" where
  "to_float neg p q =
     (case binary32_round p q of
        None \<Rightarrow> (if neg then NegInf else PosInf)
      | Some v \<Rightarrow> (if v = 0 then (if neg then NegZero else Finite 0)
                   else Finite (if neg then - v else v)))"

text \<open>The value \<open>m * b^e\<close> as a fraction of naturals.\<close>

definition scaled :: "bool \<Rightarrow> nat \<Rightarrow> nat \<Rightarrow> int \<Rightarrow> spark_float" where
  "scaled neg m b e =
     (if 0 \<le> e then to_float neg (m * b ^ nat e) 1 else to_float neg m (b ^ nat (- e)))"

definition take_sign :: "string \<Rightarrow> bool \<times> string" where
  "take_sign s =
     (case s of
        [] \<Rightarrow> (False, [])
      | c # r \<Rightarrow> (if c = CHR ''-'' then (True, r) else if c = CHR ''+'' then (False, r) else (False, s)))"

definition is_suffix :: "string \<Rightarrow> bool" where
  "is_suffix r = (r = [] \<or> r = ''f'' \<or> r = ''F'' \<or> r = ''d'' \<or> r = ''D'')"

text \<open>A signed decimal exponent followed by the optional type suffix, to the end of the text.\<close>

definition exponent_part :: "string \<Rightarrow> int option" where
  "exponent_part t =
     (let (eneg, t') = take_sign t;
          ds = takeWhile is_digit t';
          r = dropWhile is_digit t'
      in if ds = [] \<or> \<not> is_suffix r then None
         else Some (if eneg then - int (dec_value ds) else int (dec_value ds)))"

text \<open>
  The digits of a literal: digits, then optionally a point and more digits. The result is
  the digits before the point, whether there is a point, the digits after it, and the rest
  of the text.
\<close>

definition mantissa :: "(char \<Rightarrow> bool) \<Rightarrow> string \<Rightarrow> string \<times> bool \<times> string \<times> string" where
  "mantissa P r =
     (let ip = takeWhile P r;
          r1 = dropWhile P r
      in case r1 of
           [] \<Rightarrow> (ip, False, [], [])
         | c # t \<Rightarrow>
             if c = CHR ''.'' then (ip, True, takeWhile P t, dropWhile P t)
             else (ip, False, [], r1))"

text \<open>The end of a decimal literal: an optional exponent \<^verbatim>\<open>e\<close>/\<^verbatim>\<open>E\<close>, an optional suffix.\<close>

definition decimal_exponent :: "string \<Rightarrow> int option" where
  "decimal_exponent r2 =
     (case r2 of
        [] \<Rightarrow> Some 0
      | c # t \<Rightarrow>
          if c = CHR ''e'' \<or> c = CHR ''E'' then exponent_part t
          else if is_suffix r2 then Some 0
          else None)"

text \<open>The end of a hexadecimal literal: a mandatory binary exponent \<^verbatim>\<open>p\<close>/\<^verbatim>\<open>P\<close>.\<close>

definition binary_exponent :: "string \<Rightarrow> int option" where
  "binary_exponent r2 =
     (case r2 of
        [] \<Rightarrow> None
      | c # t \<Rightarrow> if c = CHR ''p'' \<or> c = CHR ''P'' then exponent_part t else None)"

text \<open>
  Java's decimal literal: digits with at most one point and at least one digit, an optional
  exponent, an optional suffix \<^verbatim>\<open>f F d D\<close>.
\<close>

definition decimal_literal :: "bool \<Rightarrow> string \<Rightarrow> spark_float option" where
  "decimal_literal neg r =
     (case mantissa is_digit r of
        (ip, dot, fp, r2) \<Rightarrow>
          if ip @ fp = [] then None
          else (case decimal_exponent r2 of
                  None \<Rightarrow> None
                | Some e \<Rightarrow> Some (scaled neg (dec_value (ip @ fp)) 10 (e - int (length fp)))))"

text \<open>
  Java's hexadecimal literal, after the \<^verbatim>\<open>0x\<close>: hex digits with an optional point (digits
  before it, or digits after it), then the binary exponent.
\<close>

definition hex_literal :: "bool \<Rightarrow> string \<Rightarrow> spark_float option" where
  "hex_literal neg r =
     (case mantissa is_hex_digit r of
        (ip, dot, fp, r2) \<Rightarrow>
          if (ip = [] \<and> fp = []) \<or> (ip = [] \<and> \<not> dot) then None
          else (case binary_exponent r2 of
                  None \<Rightarrow> None
                | Some e \<Rightarrow> Some (scaled neg (hex_value (ip @ fp)) 2 (e - 4 * int (length fp)))))"

text \<open>
  \<^verbatim>\<open>Float.parseFloat\<close>: trim, an optional sign, then \<^verbatim>\<open>NaN\<close>, \<^verbatim>\<open>Infinity\<close>, a hexadecimal
  or a decimal literal; \<open>None\<close> is its \<^verbatim>\<open>NumberFormatException\<close>.
\<close>

definition parseFloat :: "string \<Rightarrow> spark_float option" where
  "parseFloat s =
     (let (neg, r) = take_sign (java_trim s)
      in case r of
           [] \<Rightarrow> None
         | c # t \<Rightarrow>
             if c = CHR ''N'' then (if r = ''NaN'' then Some NaN else None)
             else if c = CHR ''I'' then
               (if r = ''Infinity'' then Some (if neg then NegInf else PosInf) else None)
             else if c = CHR ''0'' \<and> (case t of [] \<Rightarrow> False | x # t' \<Rightarrow> x = CHR ''x'' \<or> x = CHR ''X'')
               then hex_literal neg (tl t)
             else decimal_literal neg r)"

text \<open>
  The names Spark accepts after \<^verbatim>\<open>parseFloat\<close> has failed
  (\<^verbatim>\<open>Cast.processFloatingPointSpecialLiterals\<close>), in any letter case.
\<close>

definition special_literal :: "string \<Rightarrow> spark_float option" where
  "special_literal s =
     (let t = map to_lower (java_trim s)
      in if t = ''inf'' \<or> t = ''+inf'' \<or> t = ''infinity'' \<or> t = ''+infinity'' then Some PosInf
         else if t = ''-inf'' \<or> t = ''-infinity'' then Some NegInf
         else if t = ''nan'' then Some NaN
         else None)"

text \<open>
  \<^verbatim>\<open>col.cast("float")\<close> on a text column. When \<^verbatim>\<open>parseFloat\<close> throws and the text is no
  special name either, the cast raises under ANSI mode and gives \<open>NULL\<close> otherwise.
\<close>

definition cast_float :: "bool \<Rightarrow> string option \<Rightarrow> spark_error + spark_float option" where
  "cast_float ansi c =
     (case c of
        None \<Rightarrow> Inr None
      | Some s \<Rightarrow>
          (case parseFloat s of
             Some v \<Rightarrow> Inr (Some v)
           | None \<Rightarrow>
               (case special_literal s of
                  Some v \<Rightarrow> Inr (Some v)
                | None \<Rightarrow> if ansi then Inl (CastInvalidInput s) else Inr None)))"

text \<open>
  The session setting \<^verbatim>\<open>spark.sql.ansi.enabled\<close>. The notebook does not set it, and the classic
  runtime it is written for (it uses \<^verbatim>\<open>spark.sparkContext\<close> and \<^verbatim>\<open>spark._jsparkSession\<close>) has
  it off.
\<close>

definition ansi_enabled :: bool where
  "ansi_enabled = False"

text \<open>
  \<^verbatim>\<open>regexp_replace(col, pattern, replacement)\<close> for the two patterns of the notebook, each
  of which matches one literal character (\<^verbatim>\<open>\$\<close> and \<^verbatim>\<open>,\<close>): every occurrence is replaced.
\<close>

definition regexp_replace :: "string option \<Rightarrow> char \<Rightarrow> string \<Rightarrow> string option" where
  "regexp_replace c pat rep =
     (case c of
        None \<Rightarrow> None
      | Some s \<Rightarrow> Some (concat (map (\<lambda>x. if x = pat then rep else [x]) s)))"

text \<open>One gross column: the two replacements, then the cast.\<close>

definition clean_gross :: "string option \<Rightarrow> spark_error + spark_float option" where
  "clean_gross g =
     cast_float ansi_enabled (regexp_replace (regexp_replace g (CHR ''$'') []) (CHR '','') [])"

subsection \<open>Dates and \<^verbatim>\<open>to_date\<close> with the pattern \<^verbatim>\<open>MMM d yyyy\<close>\<close>

record date =
  year :: nat
  month :: nat
  day :: nat

definition month_names :: "string list" where
  "month_names = [''jan'', ''feb'', ''mar'', ''apr'', ''may'', ''jun'',
                  ''jul'', ''aug'', ''sep'', ''oct'', ''nov'', ''dec'']"

fun month_index :: "string \<Rightarrow> string list \<Rightarrow> nat \<Rightarrow> nat option" where
  "month_index w [] i = None"
| "month_index w (n # ns) i = (if w = n then Some i else month_index w ns (Suc i))"

definition leap_year :: "nat \<Rightarrow> bool" where
  "leap_year y = ((y mod 4 = 0 \<and> y mod 100 \<noteq> 0) \<or> y mod 400 = 0)"

definition days_in_month :: "nat \<Rightarrow> nat \<Rightarrow> nat" where
  "days_in_month y m =
     (if m = 2 then (if leap_year y then 29 else 28)
      else if m = 4 \<or> m = 6 \<or> m = 9 \<or> m = 11 then 30
      else 31)"

text \<open>
  Spark's parser for the pattern is strict: the text must be, to its end, an abbreviated
  English month name (in any letter case), a space, the day in digits, a space and a
  four-digit year, and the three must be a date of the calendar. Anything else gives
  \<open>NULL\<close>.
\<close>

definition to_date :: "string option \<Rightarrow> date option" where
  "to_date c =
     (case c of
        None \<Rightarrow> None
      | Some s \<Rightarrow>
          (case month_index (map to_lower (take 3 s)) month_names 1 of
             None \<Rightarrow> None
           | Some m \<Rightarrow>
               (case drop 3 s of
                  [] \<Rightarrow> None
                | c1 # r1 \<Rightarrow>
                    let dd = takeWhile is_digit r1;
                        r2 = dropWhile is_digit r1
                    in if c1 \<noteq> CHR '' '' \<or> dd = [] \<or> 19 < length dd then None
                       else (case r2 of
                               [] \<Rightarrow> None
                             | c2 # yy \<Rightarrow>
                                 if c2 \<noteq> CHR '' '' \<or> length yy \<noteq> 4 \<or> \<not> list_all is_digit yy then None
                                 else if 1 \<le> dec_value dd \<and> dec_value dd \<le> days_in_month (dec_value yy) m
                                 then Some \<lparr> year = dec_value yy, month = m, day = dec_value dd \<rparr>
                                 else None))))"

subsection \<open>The box-office fetcher (cell "Initialize and Fetch Box Office Data")\<close>

text \<open>
  A daily entry is a Python dictionary from text to text, kept as an association list in
  insertion order. The provider (\<^verbatim>\<open>BoxOffice().get_yearly\<close>) is a parameter: it answers a
  year with the entries of that year, or fails; each entry it returns is a dictionary of its
  own (no dictionary is shared between two entries), so that the update of one entry
  changes no other. The fetcher's state is the list of the requests it has issued and
  \<^verbatim>\<open>json_data\<close>.
\<close>

type_synonym entry = "(string \<times> string) list"

datatype py_error = KeyError string | ProviderError

type_synonym provider = "int \<Rightarrow> py_error + entry list"

definition digit_char :: "nat \<Rightarrow> char" where
  "digit_char n = ''0123456789'' ! n"

fun str_nat :: "nat \<Rightarrow> string" where
  "str_nat n = (if n < 10 then [digit_char n] else str_nat (n div 10) @ [digit_char (n mod 10)])"

declare str_nat.simps [simp del]

text \<open>Python's \<^verbatim>\<open>str\<close> on an integer.\<close>

definition str :: "int \<Rightarrow> string" where
  "str y = (if y < 0 then CHR ''-'' # str_nat (nat (- y)) else str_nat (nat y))"

definition dict_get :: "entry \<Rightarrow> string \<Rightarrow> py_error + string" where
  "dict_get d k = (case map_of d k of None \<Rightarrow> Inl (KeyError k) | Some v \<Rightarrow> Inr v)"

text \<open>\<^verbatim>\<open>d['Release Date'] = d['Release Date'] + ' ' + str(y)\<close>\<close>

definition append_year :: "int \<Rightarrow> entry \<Rightarrow> py_error + entry" where
  "append_year y d =
     (case dict_get d ''Release Date'' of
        Inl e \<Rightarrow> Inl e
      | Inr v \<Rightarrow> Inr (AList.update ''Release Date'' (v @ '' '' @ str y) d))"

fun append_year_all :: "int \<Rightarrow> entry list \<Rightarrow> py_error + entry list" where
  "append_year_all y [] = Inr []"
| "append_year_all y (d # ds) =
     (case append_year y d of
        Inl e \<Rightarrow> Inl e
      | Inr d' \<Rightarrow> (case append_year_all y ds of Inl e \<Rightarrow> Inl e | Inr ds' \<Rightarrow> Inr (d' # ds')))"

record fetch_state =
  requests :: "int list"
  json_data :: "entry list list"

fun fetch_years :: "provider \<Rightarrow> int list \<Rightarrow> fetch_state \<Rightarrow> py_error + fetch_state" where
  "fetch_years get_yearly [] st = Inr st"
| "fetch_years get_yearly (y # ys) st =
     (case get_yearly y of
        Inl e \<Rightarrow> Inl e
      | Inr daily_data \<Rightarrow>
          (case append_year_all y daily_data of
             Inl e \<Rightarrow> Inl e
           | Inr annotated \<Rightarrow>
               fetch_years get_yearly ys
                 \<lparr> requests = requests st @ [y], json_data = json_data st @ [annotated] \<rparr>))"

text \<open>\<^verbatim>\<open>range(2010, 2025)\<close> is the years 2010 to 2024.\<close>

definition year_range :: "int list" where
  "year_range = [2010..2024]"

definition fetch_box_office :: "provider \<Rightarrow> py_error + fetch_state" where
  "fetch_box_office get_yearly = fetch_years get_yearly year_range \<lparr> requests = [], json_data = [] \<rparr>"

subsection \<open>Cleaning the box-office rows and the join\<close>

text \<open>
  \<^verbatim>\<open>spark.read.json\<close> over \<^verbatim>\<open>json_data\<close> gives one row per entry: each inner list reaches
  the reader as one text, an array of objects, which it reads as one row per object, and a
  key an entry lacks is \<open>NULL\<close> in its row. The columns the notebook does not touch are
  carried along in \<open>bo_other\<close>.
\<close>

record box_office =
  bo_Release :: "string option"
  bo_Release_Date :: "string option"
  bo_Gross :: "string option"
  bo_Total_Gross :: "string option"
  bo_other :: entry

definition box_office_row :: "entry \<Rightarrow> box_office" where
  "box_office_row d =
     \<lparr> bo_Release = map_of d ''Release'', bo_Release_Date = map_of d ''Release Date'',
       bo_Gross = map_of d ''Gross'', bo_Total_Gross = map_of d ''Total Gross'',
       bo_other = filter (\<lambda>kv. fst kv \<notin> set [''Release'', ''Release Date'', ''Gross'', ''Total Gross'']) d \<rparr>"

definition read_json :: "entry list list \<Rightarrow> box_office list" where
  "read_json js = map box_office_row (concat js)"

text \<open>
  The reader infers the columns from the entries: a column exists when some entry has the
  key. The cell names four columns, in this order; the first one that no entry has (all of
  them, when there is no entry) stops the cell with an analysis error.
\<close>

definition has_column :: "entry list \<Rightarrow> string \<Rightarrow> bool" where
  "has_column es k = list_ex (\<lambda>d. map_of d k \<noteq> None) es"

definition unresolved_column :: "entry list \<Rightarrow> string option" where
  "unresolved_column es =
     find (\<lambda>k. \<not> has_column es k) [''Gross'', ''Total Gross'', ''Release Date'', ''Release'']"

text \<open>
  The rows after the two gross columns are cleaned and cast (the dataframe \<^verbatim>\<open>df\<close> after the
  casts), and after the release date is parsed.
\<close>

record box_office_gross =
  g_Release :: "string option"
  g_Release_Date :: "string option"
  g_Gross :: "spark_float option"
  g_Total_Gross :: "spark_float option"
  g_other :: entry

definition cast_gross_columns :: "box_office \<Rightarrow> spark_error + box_office_gross" where
  "cast_gross_columns b =
     (case clean_gross (bo_Gross b) of
        Inl e \<Rightarrow> Inl e
      | Inr g \<Rightarrow>
          (case clean_gross (bo_Total_Gross b) of
             Inl e \<Rightarrow> Inl e
           | Inr tg \<Rightarrow>
               Inr \<lparr> g_Release = bo_Release b, g_Release_Date = bo_Release_Date b,
                     g_Gross = g, g_Total_Gross = tg, g_other = bo_other b \<rparr>))"

record box_office_clean =
  c_Release :: "string option"
  c_Release_Date :: "date option"
  c_Gross :: "spark_float option"
  c_Total_Gross :: "spark_float option"
  c_other :: entry

definition with_release_date :: "box_office_gross \<Rightarrow> box_office_clean" where
  "with_release_date g =
     \<lparr> c_Release = g_Release g, c_Release_Date = to_date (g_Release_Date g),
       c_Gross = g_Gross g, c_Total_Gross = g_Total_Gross g, c_other = g_other g \<rparr>"

definition clean :: "box_office \<Rightarrow> spark_error + box_office_clean" where
  "clean b =
     (case cast_gross_columns b of
        Inl e \<Rightarrow> Inl e
      | Inr g \<Rightarrow> Inr (with_release_date g))"

text \<open>The merged row, with the three columns renamed.\<close>

record merged_row = title_row +
  Release :: "string option"
  Release_Date :: "date option"
  Gross_Earnings :: "spark_float option"
  Total_Gross_Earnings :: "spark_float option"
  other :: entry

definition merge :: "box_office_clean \<Rightarrow> title_row \<Rightarrow> merged_row" where
  "merge b t =
     \<lparr> tconst = tconst t, primaryTitle = primaryTitle t, runtimeMinutes = runtimeMinutes t,
       averageRating = averageRating t, numVotes = numVotes t, Primary_Genre = Primary_Genre t,
       Release = c_Release b, Release_Date = c_Release_Date b, Gross_Earnings = c_Gross b,
       Total_Gross_Earnings = c_Total_Gross b, other = c_other b \<rparr>"

text \<open>\<^verbatim>\<open>df.join(imdb_df, df.Release == imdb_df.primaryTitle, "inner")\<close>\<close>

definition join_matches :: "box_office_clean \<Rightarrow> title_row list \<Rightarrow> merged_row list" where
  "join_matches b ts = map (merge b) (filter (\<lambda>t. sql_eq (c_Release b) (primaryTitle t)) ts)"

definition inner_join :: "box_office_clean list \<Rightarrow> title_row list \<Rightarrow> merged_row list" where
  "inner_join bs ts = concat (map (\<lambda>b. join_matches b ts) bs)"

text \<open>The whole cell: the rows written to the table \<^verbatim>\<open>omdb_analysis\<close>.\<close>

definition omdb_analysis ::
  "entry list list \<Rightarrow> title_basics list \<Rightarrow> title_ratings list \<Rightarrow> spark_error + merged_row list" where
  "omdb_analysis js basics ratings =
     (case unresolved_column (concat js) of
        Some k \<Rightarrow> Inl (UnresolvedColumn k)
      | None \<Rightarrow>
          (case map_rows clean (read_json js) of
             Inl e \<Rightarrow> Inl e
           | Inr df \<Rightarrow>
               (case imdb_df basics ratings of
                  Inl e \<Rightarrow> Inl e
                | Inr ts \<Rightarrow> Inr (inner_join df ts))))"

subsection \<open>The bulk file loader (cell "Load and Replace Data from TSV Files")\<close>

text \<open>
  Python's \<^verbatim>\<open>str.replace(old, new)\<close>: the occurrences of \<open>old\<close> from left to right, without
  overlap; an empty \<open>old\<close> matches before every character and at the end.
\<close>

function py_replace :: "string \<Rightarrow> string \<Rightarrow> string \<Rightarrow> string" where
  "py_replace old new [] = (if old = [] then new else [])"
| "py_replace old new (c # cs) =
     (if old = [] then new @ c # py_replace old new cs
      else if take (length old) (c # cs) = old
        then new @ py_replace old new (drop (length old) (c # cs))
      else c # py_replace old new cs)"
  by pat_completeness auto
termination
  by (relation "measure (\<lambda>(old, new, s). length s)") auto

record table =
  columns :: "string list"
  rows :: "string option list list"

record file_info =
  fi_path :: string
  fi_name :: string

type_synonym catalog = "string \<rightharpoonup> table"

definition catalog_name :: string where
  "catalog_name = ''data_analysis''"

definition schema_name :: string where
  "schema_name = ''imdb_data''"

definition table_name_of :: "file_info \<Rightarrow> string" where
  "table_name_of f = py_replace ''.'' ''_'' (py_replace ''.tsv'' [] (fi_name f))"

text \<open>The name the loop passes to the catalog (\<^verbatim>\<open>f"{catalog_name}.{schema_name}.{table_name}"\<close>).\<close>

definition full_table_name :: "string \<Rightarrow> string" where
  "full_table_name t = catalog_name @ ''.'' @ schema_name @ ''.'' @ t"

text \<open>
  The catalog's parser of table names is a parameter: it answers a name with the key of the
  table the name denotes (the catalog does not regard letter case), or with \<open>None\<close> when it
  raises its \<^verbatim>\<open>ParseException\<close>, as it does for a name with a hyphen, a space or a slash.
  \<^verbatim>\<open>tableExists\<close> and \<^verbatim>\<open>saveAsTable\<close> both parse the name they are given.
\<close>

type_synonym name_parser = "string \<Rightarrow> string option"

definition tableExists :: "name_parser \<Rightarrow> catalog \<Rightarrow> string \<Rightarrow> spark_error + bool" where
  "tableExists parse cat n =
     (case parse n of
        None \<Rightarrow> Inl (ParseException n)
      | Some k \<Rightarrow> Inr (k \<in> dom cat))"

text \<open>\<^verbatim>\<open>df.replace(r"\N", None)\<close>: a cell that is exactly backslash-N becomes \<open>NULL\<close>.\<close>

definition null_sentinel :: string where
  "null_sentinel = [CHR 0x5C, CHR ''N'']"

definition replace_sentinel :: "table \<Rightarrow> table" where
  "replace_sentinel t =
     t \<lparr> rows := map (map (\<lambda>c. if c = Some null_sentinel then None else c)) (rows t) \<rparr>"

text \<open>
  The reader of tab-separated files (\<^verbatim>\<open>spark.read ... .csv(path)\<close>) is a parameter too: it
  maps a path to the table the file holds, or to \<open>None\<close> when reading the file or saving its
  table raises.

  The notebook catches no exception, so the first one ends the loop: the tables written
  before it stay written and the files after it are not looked at. The state of the loop is
  the catalog's tables, the keys of the tables written so far, and the exception raised.
\<close>

type_synonym tsv_reader = "string \<Rightarrow> table option"

text \<open>\<^verbatim>\<open>df.write.mode("overwrite") ... .saveAsTable(name)\<close>: the key written and the new tables.\<close>

definition saveAsTable :: "name_parser \<Rightarrow> catalog \<Rightarrow> string \<Rightarrow> table \<Rightarrow> spark_error + string \<times> catalog" where
  "saveAsTable parse cat n df =
     (case parse n of
        None \<Rightarrow> Inl (ParseException n)
      | Some k \<Rightarrow> Inr (k, cat (k \<mapsto> df)))"

record load_state =
  tables :: catalog
  written :: "string list"
  raised :: "spark_error option"

fun load_files :: "name_parser \<Rightarrow> tsv_reader \<Rightarrow> file_info list \<Rightarrow> load_state \<Rightarrow> load_state" where
  "load_files parse csv [] st = st"
| "load_files parse csv (f # fs) st =
     (let name = full_table_name (table_name_of f)
      in case tableExists parse (tables st) name of
           Inl e \<Rightarrow> st \<lparr> raised := Some e \<rparr>
         | Inr False \<Rightarrow> load_files parse csv fs st
         | Inr True \<Rightarrow>
             (case csv (fi_path f) of
                None \<Rightarrow> st \<lparr> raised := Some (LoadFailure (fi_path f)) \<rparr>
              | Some df \<Rightarrow>
                  (case saveAsTable parse (tables st) name (replace_sentinel df) of
                     Inl e \<Rightarrow> st \<lparr> raised := Some e \<rparr>
                   | Inr (k, cat) \<Rightarrow>
                       load_files parse csv fs
                         (st \<lparr> tables := cat, written := written st @ [k] \<rparr>))))"

definition bulk_load :: "name_parser \<Rightarrow> tsv_reader \<Rightarrow> file_info list \<Rightarrow> catalog \<Rightarrow> load_state" where
  "bulk_load parse csv fs cat = load_files parse csv fs \<lparr> tables = cat, written = [], raised = None \<rparr>"

text \<open>
  A parser for the examples: it accepts a dotted name whose parts are plain (not empty, and
  of ASCII letters, digits and underscores only) and gives its lower-case form as the key;
  it rejects every other name. The catalog's own parser differs on other names (it knows a
  back-quoted part, and refuses a part that reads as a number); the examples use it on names
  where the two agree, and the general properties below are proved for every parser.
\<close>

definition is_name_char :: "char \<Rightarrow> bool" where
  "is_name_char c = (c \<in> set ''abcdefghijklmnopqrstuvwxyzABCDEFGHIJKLMNOPQRSTUVWXYZ0123456789_'')"

definition plain_name :: name_parser where
  "plain_name n =
     (if list_all (\<lambda>part. part \<noteq> [] \<and> list_all is_name_char part) (split_on (CHR ''.'') n)
      then Some (map to_lower n) else None)"

subsection \<open>Reference notions used to state the properties\<close>

text \<open>
  The primary genre as the specification words it: the first element, in the order of the
  vocabulary, among the elements common to the title's genre tokens and the vocabulary.
\<close>

definition first_in_vocabulary_order :: "string \<Rightarrow> string option" where
  "first_in_vocabulary_order g = find (\<lambda>v. v \<in> set (split_on (CHR '','') g)) genres"

text \<open>
  The shape of a gross-revenue text as the specification gives it, \<^verbatim>\<open>$d[,d]*\<close>: a dollar
  sign, a digit, then digits and commas.
\<close>

definition gross_pattern :: "string \<Rightarrow> bool" where
  "gross_pattern s =
     (case s of
        [] \<Rightarrow> False
      | c # r \<Rightarrow> c = CHR ''$'' \<and>
          (case r of [] \<Rightarrow> False
           | d # t \<Rightarrow> is_digit d \<and> list_all (\<lambda>x. x = CHR '','' \<or> is_digit x) t))"

text \<open>
  The texts \<^verbatim>\<open>Float.parseFloat\<close> accepts, as its documentation gives the grammar: an
  optional sign, then \<^verbatim>\<open>NaN\<close>, \<^verbatim>\<open>Infinity\<close>, a hexadecimal literal (\<^verbatim>\<open>0x\<close>, hex digits
  with an optional point, a binary exponent, an optional suffix) or a decimal literal
  (digits with an optional point, an optional exponent, an optional suffix). They are
  stated as decompositions of the text, apart from the parser.
\<close>

definition sign_text :: "string \<Rightarrow> bool" where
  "sign_text s = (s = [] \<or> s = ''+'' \<or> s = ''-'')"

definition digits_text :: "string \<Rightarrow> bool" where
  "digits_text ds = (ds \<noteq> [] \<and> list_all is_digit ds)"

definition exponent_text :: "char set \<Rightarrow> string \<Rightarrow> bool" where
  "exponent_text ind ex = (\<exists>c sg ds. ex = c # sg @ ds \<and> c \<in> ind \<and> sign_text sg \<and> digits_text ds)"

definition decimal_text :: "string \<Rightarrow> bool" where
  "decimal_text r =
     (\<exists>ip dot fp ex sf.
        r = ip @ dot @ fp @ ex @ sf \<and> list_all is_digit ip \<and> list_all is_digit fp \<and>
        (dot = ''.'' \<or> (dot = [] \<and> fp = [])) \<and> ip @ fp \<noteq> [] \<and>
        (ex = [] \<or> exponent_text {CHR ''e'', CHR ''E''} ex) \<and> is_suffix sf)"

definition hex_body_text :: "string \<Rightarrow> bool" where
  "hex_body_text r =
     (\<exists>ip dot fp ex sf.
        r = ip @ dot @ fp @ ex @ sf \<and> list_all is_hex_digit ip \<and> list_all is_hex_digit fp \<and>
        ((ip \<noteq> [] \<and> fp = [] \<and> (dot = [] \<or> dot = ''.'')) \<or> (dot = ''.'' \<and> fp \<noteq> [])) \<and>
        exponent_text {CHR ''p'', CHR ''P''} ex \<and> is_suffix sf)"

definition hex_text :: "string \<Rightarrow> bool" where
  "hex_text r = (\<exists>x t. r = CHR ''0'' # x # t \<and> (x = CHR ''x'' \<or> x = CHR ''X'') \<and> hex_body_text t)"

definition float_text :: "string \<Rightarrow> bool" where
  "float_text t =
     (\<exists>sg r. t = sg @ r \<and> sign_text sg \<and>
        (r = ''NaN'' \<or> r = ''Infinity'' \<or> hex_text r \<or> decimal_text r))"

text \<open>
  The names of special values the cast accepts besides, and the texts that denote a
  single-precision value at all.
\<close>

definition special_name :: "string \<Rightarrow> bool" where
  "special_name t =
     (map to_lower (java_trim t) \<in>
        set [''inf'', ''+inf'', ''infinity'', ''+infinity'', ''-inf'', ''-infinity'', ''nan''])"

definition numeric_text :: "string \<Rightarrow> bool" where
  "numeric_text t = (float_text (java_trim t) \<or> special_name t)"




subsection \<open>Sample inputs of the bulk file loader\<close>

text \<open>
  A directory with a stray file next to a file of the IMDb dump, and a catalog that holds the
  table of the latter.
\<close>

definition stray_file :: file_info where
  "stray_file = \<lparr> fi_path = ''/imdb/my-notes.txt'', fi_name = ''my-notes.txt'' \<rparr>"

definition basics_file :: file_info where
  "basics_file = \<lparr> fi_path = ''/imdb/title.basics.tsv'', fi_name = ''title.basics.tsv'' \<rparr>"

definition basics_table :: table where
  "basics_table = \<lparr> columns = [''tconst'', ''genres''], rows = [[Some ''tt1'', Some [CHR 0x5C, CHR ''N'']]] \<rparr>"

definition basics_loaded :: table where
  "basics_loaded = \<lparr> columns = [''tconst'', ''genres''], rows = [[Some ''tt1'', None]] \<rparr>"

definition old_table :: table where
  "old_table = \<lparr> columns = [''tconst''], rows = [] \<rparr>"

definition older_table :: table where
  "older_table = \<lparr> columns = [''old''], rows = [[None]] \<rparr>"

definition sample_reader :: tsv_reader where
  "sample_reader p = (if p = ''/imdb/title.basics.tsv'' then Some basics_table else None)"

definition sample_catalog :: catalog where
  "sample_catalog = [''data_analysis.imdb_data.title_basics'' \<mapsto> old_table]"

definition other_catalog :: catalog where
  "other_catalog = [''data_analysis.imdb_data.title_basics'' \<mapsto> older_table]"

section \<open>Properties\<close>

subsection \<open>The primary genre\<close>

lemma intersect_from_None:
  "find (\<lambda>x. x \<in> set ys \<and> x \<notin> set seen) xs = None \<Longrightarrow> intersect_from seen xs ys = []"
  by (induction seen xs ys rule: intersect_from.induct) (auto split: if_splits)

lemma intersect_from_Some:
  "find (\<lambda>x. x \<in> set ys \<and> x \<notin> set seen) xs = Some x \<Longrightarrow>
   \<exists>r. intersect_from seen xs ys = x # r"
  by (induction seen xs ys rule: intersect_from.induct) (auto split: if_splits)

lemma primary_genre_Some:
  "primary_genre (Some g) = Inr (find (\<lambda>x. x \<in> set genres) (split_on (CHR '','') g))"
proof -
  let ?xs = "split_on (CHR '','') g"
  let ?m = "intersect_from [] ?xs genres"
  show ?thesis
  proof (cases "find (\<lambda>x. x \<in> set genres) ?xs")
    case None
    then have "?m = []"
      using intersect_from_None [of genres "[]" ?xs] by simp
    with None show ?thesis
      by (simp add: primary_genre_def spark_split_def array_intersect_def element_at_def)
  next
    case (Some x)
    then obtain r where "?m = x # r"
      using intersect_from_Some [of genres "[]" ?xs x] by auto
    with Some show ?thesis
      by (simp add: primary_genre_def spark_split_def array_intersect_def element_at_def)
  qed
qed

lemma primary_genre_None: "primary_genre None = Inr None"
  by (simp add: primary_genre_def spark_split_def array_intersect_def element_at_def)

lemma with_primary_genre_total: "\<exists>t. with_primary_genre r = Inr t"
  by (cases "genres_col r")
     (simp_all add: with_primary_genre_def primary_genre_None primary_genre_Some)

lemma map_rows_total:
  "(\<And>r. \<exists>t. f r = Inr t) \<Longrightarrow> map_rows f rs = Inr (map (\<lambda>r. projr (f r)) rs)"
proof (induction rs)
  case Nil
  then show ?case by simp
next
  case (Cons r rs)
  from Cons.prems obtain t where "f r = Inr t" by blast
  with Cons show ?case by simp
qed

lemma imdb_df_eq:
  "imdb_df basics ratings =
     Inr (map (\<lambda>r. projr (with_primary_genre r)) (imdb_query basics ratings))"
  unfolding imdb_df_def by (rule map_rows_total) (rule with_primary_genre_total)

lemma find_vocab_member:
  "find (\<lambda>x. x \<in> set ys) xs = Some p \<Longrightarrow> p \<in> set xs \<and> p \<in> set ys"
  by (induction xs) (auto split: if_splits)

lemma find_vocab_disjoint:
  "set xs \<inter> set ys = {} \<Longrightarrow> find (\<lambda>x. x \<in> set ys) xs = None"
  by (induction xs) auto

text \<open>
  C3, as the claim states it, fails: for the genre list \<^verbatim>\<open>Drama,Action\<close> the notebook derives
  \<^verbatim>\<open>Drama\<close>, the first token of the title that is in the vocabulary, while the first
  common element in the order of the vocabulary is \<^verbatim>\<open>Action\<close>.
\<close>

theorem primary_genre_vocabulary_order_counterexample:
  "with_primary_genre \<lparr> tconst = Some ''tt1'', primaryTitle = Some ''T'', runtimeMinutes = None,
       averageRating = None, numVotes = None, genres_col = Some ''Drama,Action'' \<rparr>
   = Inr \<lparr> tconst = Some ''tt1'', primaryTitle = Some ''T'', runtimeMinutes = None,
       averageRating = None, numVotes = None, Primary_Genre = Some ''Drama'' \<rparr>
   \<and> first_in_vocabulary_order ''Drama,Action'' = Some ''Action''"
  by (simp add: with_primary_genre_def primary_genre_def spark_split_def array_intersect_def
      element_at_def genres_def first_in_vocabulary_order_def)

text \<open>
  C3, amended: for every title row with a genre list, the derived primary genre is the first
  token of the title's own comma-split genre list (in the title's order) that is an element
  of the vocabulary, and it is absent when no token is in the vocabulary.
\<close>

theorem primary_genre_title_order:
  "genres_col r = Some g \<Longrightarrow>
   \<exists>t. with_primary_genre r = Inr t \<and>
       Primary_Genre t = find (\<lambda>x. x \<in> set genres) (split_on (CHR '','') g) \<and>
       (set (split_on (CHR '','') g) \<inter> set genres = {} \<longrightarrow> Primary_Genre t = None)"
  by (simp add: with_primary_genre_def primary_genre_Some find_vocab_disjoint)

theorem primary_genre_title_order_witness:
  "\<exists>t. with_primary_genre \<lparr> tconst = Some ''tt3'', primaryTitle = Some ''V'', runtimeMinutes = None,
          averageRating = None, numVotes = None, genres_col = Some ''Thriller,Sci-Fi,Action'' \<rparr>
        = Inr t \<and> Primary_Genre t = Some ''Thriller''"
  using primary_genre_title_order [of
      "\<lparr> tconst = Some ''tt3'', primaryTitle = Some ''V'', runtimeMinutes = None,
         averageRating = None, numVotes = None, genres_col = Some ''Thriller,Sci-Fi,Action'' \<rparr>"
      "''Thriller,Sci-Fi,Action''"]
  by (simp add: genres_def)

text \<open>
  C4: a derived primary genre that is present is one of the title's own comma-split genre
  tokens and an element of the vocabulary; when the tokens and the vocabulary have no
  common element (in particular when the genre list is null) it is absent.
\<close>

theorem primary_genre_member:
  "with_primary_genre r = Inr t \<Longrightarrow>
     (\<forall>p. Primary_Genre t = Some p \<longrightarrow>
        (\<exists>g. genres_col r = Some g \<and> p \<in> set (split_on (CHR '','') g)) \<and> p \<in> set genres) \<and>
     ((case genres_col r of None \<Rightarrow> {} | Some g \<Rightarrow> set (split_on (CHR '','') g)) \<inter> set genres = {}
        \<longrightarrow> Primary_Genre t = None)"
proof (cases "genres_col r")
  case None
  assume "with_primary_genre r = Inr t"
  with None show ?thesis
    by (auto simp: with_primary_genre_def primary_genre_None)
next
  case (Some g)
  assume "with_primary_genre r = Inr t"
  with Some have pg: "Primary_Genre t = find (\<lambda>x. x \<in> set genres) (split_on (CHR '','') g)"
    by (auto simp: with_primary_genre_def primary_genre_Some)
  show ?thesis
    using Some pg find_vocab_member [of genres "split_on (CHR '','') g"]
      find_vocab_disjoint [of "split_on (CHR '','') g" genres]
    by auto
qed

theorem primary_genre_member_witness:
  "with_primary_genre \<lparr> tconst = Some ''tt2'', primaryTitle = Some ''U'', runtimeMinutes = None,
       averageRating = None, numVotes = None, genres_col = Some ''Sci-Fi,Comedy,Romance'' \<rparr>
   = Inr \<lparr> tconst = Some ''tt2'', primaryTitle = Some ''U'', runtimeMinutes = None,
       averageRating = None, numVotes = None, Primary_Genre = Some ''Comedy'' \<rparr>
   \<and> ''Comedy'' \<in> set (split_on (CHR '','') ''Sci-Fi,Comedy,Romance'') \<and> ''Comedy'' \<in> set genres
   \<and> set (split_on (CHR '','') ''Sci-Fi,News'') \<inter> set genres = {}
   \<and> (\<exists>t. with_primary_genre \<lparr> tconst = Some ''tt4'', primaryTitle = Some ''X'',
            runtimeMinutes = None, averageRating = None, numVotes = None,
            genres_col = Some ''Sci-Fi,News'' \<rparr> = Inr t \<and> Primary_Genre t = None)"
proof -
  let ?r = "\<lparr> tconst = Some ''tt2'', primaryTitle = Some ''U'', runtimeMinutes = None,
       averageRating = None, numVotes = None, genres_col = Some ''Sci-Fi,Comedy,Romance'' \<rparr>"
  let ?t = "\<lparr> tconst = Some ''tt2'', primaryTitle = Some ''U'', runtimeMinutes = None,
       averageRating = None, numVotes = None, Primary_Genre = Some ''Comedy'' \<rparr>"
  let ?r' = "\<lparr> tconst = Some ''tt4'', primaryTitle = Some ''X'', runtimeMinutes = None,
       averageRating = None, numVotes = None, genres_col = Some ''Sci-Fi,News'' \<rparr>"
  have h: "with_primary_genre ?r = Inr ?t"
    by (simp add: with_primary_genre_def primary_genre_def spark_split_def array_intersect_def
        element_at_def genres_def)
  from primary_genre_member [OF h] h
  have 1: "with_primary_genre ?r = Inr ?t \<and>
      ''Comedy'' \<in> set (split_on (CHR '','') ''Sci-Fi,Comedy,Romance'') \<and> ''Comedy'' \<in> set genres"
    by simp
  have dis: "set (split_on (CHR '','') ''Sci-Fi,News'') \<inter> set genres = {}"
    by (simp add: genres_def)
  obtain t' where h': "with_primary_genre ?r' = Inr t'"
    using with_primary_genre_total [of ?r'] by blast
  have tokens: "(case genres_col ?r' of None \<Rightarrow> {} | Some g \<Rightarrow> set (split_on (CHR '','') g))
      = set (split_on (CHR '','') ''Sci-Fi,News'')"
    by simp
  from primary_genre_member [OF h']
  have "(case genres_col ?r' of None \<Rightarrow> {} | Some g \<Rightarrow> set (split_on (CHR '','') g)) \<inter> set genres = {}
      \<longrightarrow> Primary_Genre t' = None"
    by (rule conjunct2)
  then have "Primary_Genre t' = None"
    unfolding tokens using dis by (rule mp)
  with h' have "with_primary_genre ?r' = Inr t' \<and> Primary_Genre t' = None"
    by (rule conjI)
  then have 2: "\<exists>t. with_primary_genre ?r' = Inr t \<and> Primary_Genre t = None"
    by (rule exI)
  from dis 2 have "set (split_on (CHR '','') ''Sci-Fi,News'') \<inter> set genres = {} \<and>
      (\<exists>t. with_primary_genre ?r' = Inr t \<and> Primary_Genre t = None)"
    by (rule conjI)
  with 1 show ?thesis by (simp only: conj_assoc)
qed

text \<open>
  C10: a title whose genre list is null, that passes the filter and has a rating row, is in
  the title dataframe with a null primary genre; the enrichment does not fail and keeps
  every row of the query.
\<close>

theorem null_genres_kept:
  "tb \<in> set basics \<Longrightarrow> tr \<in> set ratings \<Longrightarrow> sql_eq (tb_tconst tb) (tr_tconst tr) \<Longrightarrow>
   imdb_where tb \<Longrightarrow> tb_genres tb = None \<Longrightarrow>
   \<exists>ts. imdb_df basics ratings = Inr ts \<and>
        length ts = length (imdb_query basics ratings) \<and>
        \<lparr> tconst = tb_tconst tb, primaryTitle = tb_primaryTitle tb,
          runtimeMinutes = tb_runtimeMinutes tb, averageRating = tr_averageRating tr,
          numVotes = tr_numVotes tr, Primary_Genre = None \<rparr> \<in> set ts"
proof -
  assume a: "tb \<in> set basics" "tr \<in> set ratings" "sql_eq (tb_tconst tb) (tr_tconst tr)"
    "imdb_where tb" "tb_genres tb = None"
  let ?e = "\<lambda>r. projr (with_primary_genre r)"
  have "imdb_select tb tr \<in> set (imdb_query basics ratings)"
    using a by (auto simp: imdb_query_def)
  then have "?e (imdb_select tb tr) \<in> set (map ?e (imdb_query basics ratings))"
    by simp
  moreover have "?e (imdb_select tb tr) =
      \<lparr> tconst = tb_tconst tb, primaryTitle = tb_primaryTitle tb,
        runtimeMinutes = tb_runtimeMinutes tb, averageRating = tr_averageRating tr,
        numVotes = tr_numVotes tr, Primary_Genre = None \<rparr>"
    using a by (simp add: with_primary_genre_def primary_genre_None imdb_select_def)
  ultimately show ?thesis
    by (simp add: imdb_df_eq)
qed

theorem null_genres_kept_witness:
  "\<exists>ts. imdb_df
          [\<lparr> tb_tconst = Some ''tt9'', tb_titleType = Some ''movie'', tb_primaryTitle = Some ''W'',
             tb_isAdult = Some ''0'', tb_runtimeMinutes = Some ''90'', tb_genres = None \<rparr>]
          [\<lparr> tr_tconst = Some ''tt9'', tr_averageRating = Some ''6.1'', tr_numVotes = Some ''12'' \<rparr>]
        = Inr ts \<and>
        \<lparr> tconst = Some ''tt9'', primaryTitle = Some ''W'', runtimeMinutes = Some ''90'',
          averageRating = Some ''6.1'', numVotes = Some ''12'', Primary_Genre = None \<rparr> \<in> set ts"
  using null_genres_kept [of
      "\<lparr> tb_tconst = Some ''tt9'', tb_titleType = Some ''movie'', tb_primaryTitle = Some ''W'',
         tb_isAdult = Some ''0'', tb_runtimeMinutes = Some ''90'', tb_genres = None \<rparr>"
      "[\<lparr> tb_tconst = Some ''tt9'', tb_titleType = Some ''movie'', tb_primaryTitle = Some ''W'',
         tb_isAdult = Some ''0'', tb_runtimeMinutes = Some ''90'', tb_genres = None \<rparr>]"
      "\<lparr> tr_tconst = Some ''tt9'', tr_averageRating = Some ''6.1'', tr_numVotes = Some ''12'' \<rparr>"
      "[\<lparr> tr_tconst = Some ''tt9'', tr_averageRating = Some ''6.1'', tr_numVotes = Some ''12'' \<rparr>]"]
  by (auto simp: sql_eq_def imdb_where_def)

subsection \<open>The catalog query and the join\<close>

text \<open>
  C6: every row of the title set the query returns comes from a title whose type is
  \<^verbatim>\<open>movie\<close> and whose adult flag is \<^verbatim>\<open>0\<close>; a title of type \<^verbatim>\<open>tvSeries\<close>
  contributes no row, whatever the rating rows are.
\<close>

theorem query_movie_non_adult:
  "(\<forall>r \<in> set (imdb_query basics ratings).
      \<exists>tb \<in> set basics. \<exists>tr \<in> set ratings.
        r = imdb_select tb tr \<and> tb_tconst tb = tr_tconst tr \<and>
        tb_titleType tb = Some ''movie'' \<and> tb_isAdult tb = Some ''0'') \<and>
   (tb_titleType tv = Some ''tvSeries'' \<longrightarrow> imdb_query [tv] ratings = []) \<and>
   (tb_titleType tv = Some ''tvSeries'' \<longrightarrow>
      imdb_query (bs @ tv # bs') ratings = imdb_query (bs @ bs') ratings)"
proof -
  have 1: "\<exists>tb \<in> set basics. \<exists>tr \<in> set ratings.
        r = imdb_select tb tr \<and> tb_tconst tb = tr_tconst tr \<and>
        tb_titleType tb = Some ''movie'' \<and> tb_isAdult tb = Some ''0''"
    if "r \<in> set (imdb_query basics ratings)" for r
  proof -
    from that obtain tb tr where m: "tb \<in> set basics" "tr \<in> set ratings" "r = imdb_select tb tr"
      "sql_eq (tb_tconst tb) (tr_tconst tr)" "imdb_where tb"
      by (auto simp: imdb_query_def)
    from m(4,5) have "tb_tconst tb = tr_tconst tr \<and>
        tb_titleType tb = Some ''movie'' \<and> tb_isAdult tb = Some ''0''"
      by (auto simp: imdb_where_def sql_eq_def split: option.splits)
    with m(1,2,3) show ?thesis by blast
  qed
  have 2: "imdb_query [tv] ratings = []" if "tb_titleType tv = Some ''tvSeries''"
    using that by (simp add: imdb_query_def imdb_where_def sql_eq_def)
  have 3: "imdb_query (bs @ tv # bs') ratings = imdb_query (bs @ bs') ratings"
    if "tb_titleType tv = Some ''tvSeries''"
    using that by (simp add: imdb_query_def imdb_where_def sql_eq_def)
  from 1 2 3 show ?thesis by blast
qed

theorem query_movie_non_adult_witness:
  "imdb_select
     \<lparr> tb_tconst = Some ''tt5'', tb_titleType = Some ''movie'', tb_primaryTitle = Some ''M'',
        tb_isAdult = Some ''0'', tb_runtimeMinutes = None, tb_genres = Some ''Drama'' \<rparr>
     \<lparr> tr_tconst = Some ''tt5'', tr_averageRating = Some ''7.0'', tr_numVotes = Some ''10'' \<rparr>
   \<in> set (imdb_query
     [\<lparr> tb_tconst = Some ''tt5'', tb_titleType = Some ''movie'', tb_primaryTitle = Some ''M'',
        tb_isAdult = Some ''0'', tb_runtimeMinutes = None, tb_genres = Some ''Drama'' \<rparr>,
      \<lparr> tb_tconst = Some ''tt6'', tb_titleType = Some ''tvSeries'', tb_primaryTitle = Some ''S'',
        tb_isAdult = Some ''0'', tb_runtimeMinutes = None, tb_genres = Some ''Drama'' \<rparr>]
     [\<lparr> tr_tconst = Some ''tt5'', tr_averageRating = Some ''7.0'', tr_numVotes = Some ''10'' \<rparr>,
      \<lparr> tr_tconst = Some ''tt6'', tr_averageRating = Some ''8.0'', tr_numVotes = Some ''20'' \<rparr>]) \<and>
   (\<exists>tb \<in> set
       [\<lparr> tb_tconst = Some ''tt5'', tb_titleType = Some ''movie'', tb_primaryTitle = Some ''M'',
        tb_isAdult = Some ''0'', tb_runtimeMinutes = None, tb_genres = Some ''Drama'' \<rparr>,
        \<lparr> tb_tconst = Some ''tt6'', tb_titleType = Some ''tvSeries'', tb_primaryTitle = Some ''S'',
        tb_isAdult = Some ''0'', tb_runtimeMinutes = None, tb_genres = Some ''Drama'' \<rparr>].
      \<exists>tr \<in> set
         [\<lparr> tr_tconst = Some ''tt5'', tr_averageRating = Some ''7.0'', tr_numVotes = Some ''10'' \<rparr>,
          \<lparr> tr_tconst = Some ''tt6'', tr_averageRating = Some ''8.0'', tr_numVotes = Some ''20'' \<rparr>].
        imdb_select
          \<lparr> tb_tconst = Some ''tt5'', tb_titleType = Some ''movie'', tb_primaryTitle = Some ''M'',
        tb_isAdult = Some ''0'', tb_runtimeMinutes = None, tb_genres = Some ''Drama'' \<rparr>
          \<lparr> tr_tconst = Some ''tt5'', tr_averageRating = Some ''7.0'', tr_numVotes = Some ''10'' \<rparr>
        = imdb_select tb tr \<and> tb_tconst tb = tr_tconst tr \<and>
        tb_titleType tb = Some ''movie'' \<and> tb_isAdult tb = Some ''0'') \<and>
   imdb_query
     [\<lparr> tb_tconst = Some ''tt5'', tb_titleType = Some ''movie'', tb_primaryTitle = Some ''M'',
        tb_isAdult = Some ''0'', tb_runtimeMinutes = None, tb_genres = Some ''Drama'' \<rparr>,
      \<lparr> tb_tconst = Some ''tt6'', tb_titleType = Some ''tvSeries'', tb_primaryTitle = Some ''S'',
        tb_isAdult = Some ''0'', tb_runtimeMinutes = None, tb_genres = Some ''Drama'' \<rparr>]
     [\<lparr> tr_tconst = Some ''tt5'', tr_averageRating = Some ''7.0'', tr_numVotes = Some ''10'' \<rparr>,
      \<lparr> tr_tconst = Some ''tt6'', tr_averageRating = Some ''8.0'', tr_numVotes = Some ''20'' \<rparr>]
   = imdb_query
     [\<lparr> tb_tconst = Some ''tt5'', tb_titleType = Some ''movie'', tb_primaryTitle = Some ''M'',
        tb_isAdult = Some ''0'', tb_runtimeMinutes = None, tb_genres = Some ''Drama'' \<rparr>]
     [\<lparr> tr_tconst = Some ''tt5'', tr_averageRating = Some ''7.0'', tr_numVotes = Some ''10'' \<rparr>,
      \<lparr> tr_tconst = Some ''tt6'', tr_averageRating = Some ''8.0'', tr_numVotes = Some ''20'' \<rparr>]"
proof -
  let ?m = "\<lparr> tb_tconst = Some ''tt5'', tb_titleType = Some ''movie'', tb_primaryTitle = Some ''M'',
        tb_isAdult = Some ''0'', tb_runtimeMinutes = None, tb_genres = Some ''Drama'' \<rparr>"
  let ?tv = "\<lparr> tb_tconst = Some ''tt6'', tb_titleType = Some ''tvSeries'', tb_primaryTitle = Some ''S'',
        tb_isAdult = Some ''0'', tb_runtimeMinutes = None, tb_genres = Some ''Drama'' \<rparr>"
  let ?r5 = "\<lparr> tr_tconst = Some ''tt5'', tr_averageRating = Some ''7.0'', tr_numVotes = Some ''10'' \<rparr>"
  let ?r6 = "\<lparr> tr_tconst = Some ''tt6'', tr_averageRating = Some ''8.0'', tr_numVotes = Some ''20'' \<rparr>"
  note origin = query_movie_non_adult [of "[?m, ?tv]" "[?r5, ?r6]" ?tv "[?m]" "[]"]
  have mem: "imdb_select ?m ?r5 \<in> set (imdb_query [?m, ?tv] [?r5, ?r6])"
    by (simp add: imdb_query_def imdb_where_def sql_eq_def)
  from origin mem have from_movie: "\<exists>tb \<in> set [?m, ?tv]. \<exists>tr \<in> set [?r5, ?r6].
      imdb_select ?m ?r5 = imdb_select tb tr \<and> tb_tconst tb = tr_tconst tr \<and>
      tb_titleType tb = Some ''movie'' \<and> tb_isAdult tb = Some ''0''"
    by blast
  have tv: "tb_titleType ?tv = Some ''tvSeries''" by simp
  from origin tv have "imdb_query ([?m] @ ?tv # []) [?r5, ?r6] = imdb_query ([?m] @ []) [?r5, ?r6]"
    by blast
  then have dropped: "imdb_query [?m, ?tv] [?r5, ?r6] = imdb_query [?m] [?r5, ?r6]"
    by simp
  from mem from_movie dropped show ?thesis by blast
qed

lemma clean_gross_n_a: "clean_gross (Some ''N/A'') = Inr None"
  by (simp add: clean_gross_def regexp_replace_def cast_float_def ansi_enabled_def parseFloat_def
      java_trim_def is_space_def take_sign_def special_literal_def to_lower_def)

lemma to_date_n_a: "to_date (Some ''N/A'') = None"
  by (simp add: to_date_def to_lower_def month_names_def)

lemma set_join_matches:
  "m \<in> set (join_matches b ts) \<Longrightarrow> \<exists>s. Release m = Some s \<and> primaryTitle m = Some s"
  by (auto simp: join_matches_def merge_def sql_eq_def split: option.splits)

text \<open>
  C5: in every merged row the release title of the box-office record and the primary title
  of the title record are the same text; a box-office row whose release title is the
  primary title of no title row contributes no merged row.
\<close>

theorem join_exact_title:
  "(omdb_analysis js basics ratings = Inr ms \<longrightarrow>
      (\<forall>m \<in> set ms. \<exists>s. Release m = Some s \<and> primaryTitle m = Some s)) \<and>
   ((\<forall>t \<in> set ts. primaryTitle t \<noteq> c_Release b) \<longrightarrow>
      join_matches b ts = [] \<and> inner_join (bs @ b # bs') ts = inner_join (bs @ bs') ts)"
proof -
  have 1: "omdb_analysis js basics ratings = Inr ms \<longrightarrow>
      (\<forall>m \<in> set ms. \<exists>s. Release m = Some s \<and> primaryTitle m = Some s)"
    by (auto simp: omdb_analysis_def inner_join_def imdb_df_eq dest: set_join_matches
        split: option.splits sum.splits)
  have 2: "join_matches b ts = []" if "\<forall>t \<in> set ts. primaryTitle t \<noteq> c_Release b"
    using that by (auto simp: join_matches_def sql_eq_def filter_empty_conv split: option.splits)
  from 1 2 show ?thesis by (simp add: inner_join_def)
qed

theorem join_exact_title_witness:
  "join_matches
     \<lparr> c_Release = Some ''Heat 2'', c_Release_Date = None, c_Gross = None, c_Total_Gross = None,
       c_other = [] \<rparr>
     [\<lparr> tconst = Some ''tt7'', primaryTitle = Some ''Heat'', runtimeMinutes = None,
        averageRating = None, numVotes = None, Primary_Genre = Some ''Crime'' \<rparr>] = [] \<and>
   inner_join
     [\<lparr> c_Release = Some ''Heat'', c_Release_Date = None, c_Gross = None, c_Total_Gross = None,
        c_other = [] \<rparr>,
      \<lparr> c_Release = Some ''Heat 2'', c_Release_Date = None, c_Gross = None, c_Total_Gross = None,
        c_other = [] \<rparr>]
     [\<lparr> tconst = Some ''tt7'', primaryTitle = Some ''Heat'', runtimeMinutes = None,
        averageRating = None, numVotes = None, Primary_Genre = Some ''Crime'' \<rparr>]
   = [\<lparr> tconst = Some ''tt7'', primaryTitle = Some ''Heat'', runtimeMinutes = None,
        averageRating = None, numVotes = None, Primary_Genre = Some ''Crime'',
        Release = Some ''Heat'', Release_Date = None, Gross_Earnings = None,
        Total_Gross_Earnings = None, other = [] \<rparr>] \<and>
   (\<exists>s. Release
          \<lparr> tconst = Some ''tt7'', primaryTitle = Some ''Heat'', runtimeMinutes = None,
            averageRating = None, numVotes = None, Primary_Genre = Some ''Crime'',
            Release = Some ''Heat'', Release_Date = None, Gross_Earnings = None,
            Total_Gross_Earnings = None, other = [] \<rparr> = Some s \<and>
        primaryTitle
          \<lparr> tconst = Some ''tt7'', primaryTitle = Some ''Heat'', runtimeMinutes = None,
            averageRating = None, numVotes = None, Primary_Genre = Some ''Crime'',
            Release = Some ''Heat'', Release_Date = None, Gross_Earnings = None,
            Total_Gross_Earnings = None, other = [] \<rparr> = Some s)"
proof -
  let ?b1 = "\<lparr> c_Release = Some ''Heat'', c_Release_Date = None, c_Gross = None,
               c_Total_Gross = None, c_other = [] \<rparr>"
  let ?b2 = "\<lparr> c_Release = Some ''Heat 2'', c_Release_Date = None, c_Gross = None,
               c_Total_Gross = None, c_other = [] \<rparr>"
  let ?t = "\<lparr> tconst = Some ''tt7'', primaryTitle = Some ''Heat'', runtimeMinutes = None,
              averageRating = None, numVotes = None, Primary_Genre = Some ''Crime'' \<rparr>"
  let ?tb = "\<lparr> tb_tconst = Some ''tt7'', tb_titleType = Some ''movie'',
               tb_primaryTitle = Some ''Heat'', tb_isAdult = Some ''0'',
               tb_runtimeMinutes = None, tb_genres = Some ''Crime'' \<rparr>"
  let ?tr = "\<lparr> tr_tconst = Some ''tt7'', tr_averageRating = None, tr_numVotes = None \<rparr>"
  let ?js = "[[[(''Release'', ''Heat''), (''Release Date'', ''N/A''), (''Gross'', ''N/A''),
                (''Total Gross'', ''N/A'')]],
              [[(''Release'', ''Heat 2''), (''Release Date'', ''N/A''), (''Gross'', ''N/A''),
                (''Total Gross'', ''N/A'')]]]"
  let ?m = "\<lparr> tconst = Some ''tt7'', primaryTitle = Some ''Heat'', runtimeMinutes = None,
              averageRating = None, numVotes = None, Primary_Genre = Some ''Crime'',
              Release = Some ''Heat'', Release_Date = None, Gross_Earnings = None,
              Total_Gross_Earnings = None, other = [] \<rparr>"
  have pg: "primary_genre (Some ''Crime'') = Inr (Some ''Crime'')"
    by (simp add: primary_genre_Some genres_def)
  have run: "omdb_analysis ?js [?tb] [?tr] = Inr [?m]"
    by (simp add: omdb_analysis_def imdb_df_def imdb_query_def imdb_where_def sql_eq_def
        imdb_select_def with_primary_genre_def pg read_json_def box_office_row_def
        unresolved_column_def has_column_def clean_def cast_gross_columns_def
        with_release_date_def clean_gross_n_a to_date_n_a
        inner_join_def join_matches_def merge_def)
  have miss: "\<forall>t \<in> set [?t]. primaryTitle t \<noteq> c_Release ?b2"
    by simp
  have j: "inner_join ([?b1] @ []) [?t] = [?m]"
    by (simp add: inner_join_def join_matches_def merge_def sql_eq_def)
  from join_exact_title [of ?js "[?tb]" "[?tr]" "[?m]" "[?t]" ?b2 "[?b1]" "[]"] run miss j
  show ?thesis by simp
qed

subsection \<open>The bulk file loader\<close>

text \<open>One step of the loop, by what the parser, the catalog and the reader answer.\<close>

lemma load_files_Cons:
  "load_files parse csv (f # fs) st =
     (case parse (full_table_name (table_name_of f)) of
        None \<Rightarrow> st \<lparr> raised := Some (ParseException (full_table_name (table_name_of f))) \<rparr>
      | Some k \<Rightarrow>
          if k \<notin> dom (tables st) then load_files parse csv fs st
          else (case csv (fi_path f) of
                  None \<Rightarrow> st \<lparr> raised := Some (LoadFailure (fi_path f)) \<rparr>
                | Some df \<Rightarrow>
                    load_files parse csv fs
                      (st \<lparr> tables := (tables st) (k \<mapsto> replace_sentinel df),
                            written := written st @ [k] \<rparr>)))"
  by (simp add: tableExists_def saveAsTable_def Let_def split: option.splits)

declare load_files.simps(2) [simp del]

lemma dom_load_files: "dom (tables (load_files parse csv fs st)) = dom (tables st)"
proof (induction fs arbitrary: st)
  case Nil
  then show ?case by simp
next
  case (Cons f fs)
  show ?case
    by (auto simp: load_files_Cons Cons.IH split: option.splits if_splits)
qed

lemma written_mono: "set (written st) \<subseteq> set (written (load_files parse csv fs st))"
proof (induction fs arbitrary: st)
  case Nil
  then show ?case by simp
next
  case (Cons f fs)
  show ?case
  proof (cases "parse (full_table_name (table_name_of f))")
    case None
    then show ?thesis by (simp add: load_files_Cons)
  next
    case (Some k)
    show ?thesis
    proof (cases "k \<in> dom (tables st)")
      case False
      with Some Cons.IH [of st] show ?thesis by (simp add: load_files_Cons)
    next
      case True
      show ?thesis
      proof (cases "csv (fi_path f)")
        case None
        with Some True show ?thesis by (simp add: load_files_Cons)
      next
        case (Some df)
        let ?st = "st \<lparr> tables := (tables st) (k \<mapsto> replace_sentinel df), written := written st @ [k] \<rparr>"
        from Cons.IH [of ?st] have "set (written st) \<subseteq> set (written (load_files parse csv fs ?st))"
          by auto
        with \<open>parse (full_table_name (table_name_of f)) = Some k\<close> True Some show ?thesis
          by (simp add: load_files_Cons)
      qed
    qed
  qed
qed


lemma load_files_unwritten:
  "k \<notin> set (written (load_files parse csv fs st)) \<Longrightarrow>
   tables (load_files parse csv fs st) k = tables st k"
proof (induction fs arbitrary: st)
  case Nil
  then show ?case by simp
next
  case (Cons f fs)
  show ?case
  proof (cases "parse (full_table_name (table_name_of f))")
    case None
    then show ?thesis by (simp add: load_files_Cons)
  next
    case (Some k')
    show ?thesis
    proof (cases "k' \<in> dom (tables st)")
      case False
      with Some Cons show ?thesis by (simp add: load_files_Cons)
    next
      case True
      show ?thesis
      proof (cases "csv (fi_path f)")
        case None
        with Some True show ?thesis by (simp add: load_files_Cons)
      next
        case (Some df)
        let ?st = "st \<lparr> tables := (tables st) (k' \<mapsto> replace_sentinel df), written := written st @ [k'] \<rparr>"
        have eq: "load_files parse csv (f # fs) st = load_files parse csv fs ?st"
          using \<open>parse (full_table_name (table_name_of f)) = Some k'\<close> True Some
          by (simp add: load_files_Cons)
        with Cons.prems have nw: "k \<notin> set (written (load_files parse csv fs ?st))" by simp
        with written_mono [of ?st parse csv fs] have "k \<noteq> k'" by auto
        with Cons.IH [OF nw] eq show ?thesis by simp
      qed
    qed
  qed
qed

text \<open>Every key written is the key of a file's derived name, and its table existed.\<close>

lemma load_files_written:
  "k \<in> set (written (load_files parse csv fs st)) \<Longrightarrow>
   k \<in> set (written st) \<or>
   (k \<in> dom (tables st) \<and> (\<exists>f \<in> set fs. parse (full_table_name (table_name_of f)) = Some k))"
proof (induction fs arbitrary: st)
  case Nil
  then show ?case by simp
next
  case (Cons f fs)
  show ?case
  proof (cases "parse (full_table_name (table_name_of f))")
    case None
    with Cons.prems show ?thesis by (simp add: load_files_Cons)
  next
    case (Some k')
    show ?thesis
    proof (cases "k' \<in> dom (tables st)")
      case False
      with Some Cons.prems Cons.IH [of st] show ?thesis by (auto simp: load_files_Cons)
    next
      case True
      show ?thesis
      proof (cases "csv (fi_path f)")
        case None
        with Some True Cons.prems show ?thesis by (simp add: load_files_Cons)
      next
        case (Some df)
        let ?st = "st \<lparr> tables := (tables st) (k' \<mapsto> replace_sentinel df), written := written st @ [k'] \<rparr>"
        have eq: "load_files parse csv (f # fs) st = load_files parse csv fs ?st"
          using \<open>parse (full_table_name (table_name_of f)) = Some k'\<close> True Some
          by (simp add: load_files_Cons)
        with Cons.prems have "k \<in> set (written (load_files parse csv fs ?st))" by simp
        from Cons.IH [OF this]
        have "k \<in> set (written st) \<or> k = k' \<or>
              (k \<in> dom (tables ?st) \<and> (\<exists>f \<in> set fs. parse (full_table_name (table_name_of f)) = Some k))"
          by auto
        moreover have "dom (tables ?st) = dom (tables st)" using True by auto
        ultimately show ?thesis
          using True \<open>parse (full_table_name (table_name_of f)) = Some k'\<close> by auto
      qed
    qed
  qed
qed

text \<open>The loop over a list of files followed by another: the second part runs only if the first raised nothing.\<close>

lemma load_files_append:
  "raised st = None \<Longrightarrow>
   load_files parse csv (xs @ ys) st =
     (if raised (load_files parse csv xs st) = None
      then load_files parse csv ys (load_files parse csv xs st)
      else load_files parse csv xs st)"
proof (induction xs arbitrary: st)
  case Nil
  then show ?case by simp
next
  case (Cons f xs)
  show ?case
  proof (cases "parse (full_table_name (table_name_of f))")
    case None
    then show ?thesis by (simp add: load_files_Cons)
  next
    case (Some k')
    show ?thesis
    proof (cases "k' \<in> dom (tables st)")
      case False
      with Some Cons show ?thesis by (simp add: load_files_Cons)
    next
      case True
      show ?thesis
      proof (cases "csv (fi_path f)")
        case None
        with Some True show ?thesis by (simp add: load_files_Cons)
      next
        case (Some df)
        let ?st = "st \<lparr> tables := (tables st) (k' \<mapsto> replace_sentinel df), written := written st @ [k'] \<rparr>"
        from Cons.prems have "raised ?st = None" by simp
        from Cons.IH [OF this] \<open>parse (full_table_name (table_name_of f)) = Some k'\<close> True Some
        show ?thesis by (simp add: load_files_Cons)
      qed
    qed
  qed
qed

lemma load_files_skip:
  "raised st = None \<Longrightarrow> parse (full_table_name (table_name_of f)) = Some k \<Longrightarrow>
   k \<notin> dom (tables st) \<Longrightarrow>
   load_files parse csv (fs @ f # fs') st = load_files parse csv (fs @ fs') st"
proof -
  assume r: "raised st = None" and p: "parse (full_table_name (table_name_of f)) = Some k"
    and k: "k \<notin> dom (tables st)"
  from k have "k \<notin> dom (tables (load_files parse csv fs st))"
    by (simp add: dom_load_files)
  with p have "load_files parse csv (f # fs') (load_files parse csv fs st)
      = load_files parse csv fs' (load_files parse csv fs st)"
    by (simp add: load_files_Cons)
  then show ?thesis
    by (simp add: load_files_append [OF r])
qed

text \<open>
  Two runs over the same files from catalogs with the same table names write the same keys
  with the same tables and raise the same.
\<close>

lemma load_files_prior:
  "written st' = written st \<Longrightarrow> raised st' = raised st \<Longrightarrow>
   dom (tables st') = dom (tables st) \<Longrightarrow>
   \<forall>k \<in> set (written st). tables st' k = tables st k \<Longrightarrow>
   written (load_files parse csv fs st') = written (load_files parse csv fs st) \<and>
   raised (load_files parse csv fs st') = raised (load_files parse csv fs st) \<and>
   (\<forall>k \<in> set (written (load_files parse csv fs st)).
      tables (load_files parse csv fs st') k = tables (load_files parse csv fs st) k)"
proof (induction fs arbitrary: st st')
  case Nil
  then show ?case by simp
next
  case (Cons f fs)
  show ?case
  proof (cases "parse (full_table_name (table_name_of f))")
    case None
    with Cons.prems show ?thesis by (simp add: load_files_Cons)
  next
    case (Some k')
    show ?thesis
    proof (cases "k' \<in> dom (tables st)")
      case False
      with Cons.prems(3) have "k' \<notin> dom (tables st')" by simp
      with False Some Cons.IH [OF Cons.prems] show ?thesis
        by (simp add: load_files_Cons)
    next
      case True
      with Cons.prems(3) have True': "k' \<in> dom (tables st')" by simp
      show ?thesis
      proof (cases "csv (fi_path f)")
        case None
        with Some True True' Cons.prems show ?thesis by (simp add: load_files_Cons)
      next
        case (Some df)
        let ?st = "st \<lparr> tables := (tables st) (k' \<mapsto> replace_sentinel df), written := written st @ [k'] \<rparr>"
        let ?st' = "st' \<lparr> tables := (tables st') (k' \<mapsto> replace_sentinel df), written := written st' @ [k'] \<rparr>"
        have 1: "written ?st' = written ?st" using Cons.prems(1) by simp
        have 2: "raised ?st' = raised ?st" using Cons.prems(2) by simp
        have 3: "dom (tables ?st') = dom (tables ?st)" using Cons.prems(3) by simp
        have 4: "\<forall>k \<in> set (written ?st). tables ?st' k = tables ?st k"
          using Cons.prems(4) by simp
        from Cons.IH [OF 1 2 3 4] \<open>parse (full_table_name (table_name_of f)) = Some k'\<close> True True' Some
        show ?thesis by (simp add: load_files_Cons)
      qed
    qed
  qed
qed


text \<open>The table under a written key is the contents of a file of that derived name.\<close>

lemma load_files_written_table:
  "k \<in> set (written (load_files parse csv fs st)) \<Longrightarrow>
   (k \<in> set (written st) \<and> tables (load_files parse csv fs st) k = tables st k) \<or>
   (\<exists>f \<in> set fs. \<exists>df. parse (full_table_name (table_name_of f)) = Some k \<and>
       csv (fi_path f) = Some df \<and>
       tables (load_files parse csv fs st) k = Some (replace_sentinel df))"
proof (induction fs arbitrary: st)
  case Nil
  then show ?case by simp
next
  case (Cons f fs)
  show ?case
  proof (cases "parse (full_table_name (table_name_of f))")
    case None
    with Cons.prems show ?thesis by (simp add: load_files_Cons)
  next
    case (Some k')
    show ?thesis
    proof (cases "k' \<in> dom (tables st)")
      case False
      with Some Cons.prems Cons.IH [of st] show ?thesis by (auto simp: load_files_Cons)
    next
      case True
      show ?thesis
      proof (cases "csv (fi_path f)")
        case None
        with Some True Cons.prems show ?thesis by (simp add: load_files_Cons)
      next
        case (Some df)
        let ?st = "st \<lparr> tables := (tables st) (k' \<mapsto> replace_sentinel df), written := written st @ [k'] \<rparr>"
        have eq: "load_files parse csv (f # fs) st = load_files parse csv fs ?st"
          using \<open>parse (full_table_name (table_name_of f)) = Some k'\<close> True Some
          by (simp add: load_files_Cons)
        with Cons.prems have "k \<in> set (written (load_files parse csv fs ?st))" by simp
        from Cons.IH [OF this]
        consider (old) "k \<in> set (written ?st)" "tables (load_files parse csv fs ?st) k = tables ?st k"
          | (new) "\<exists>f \<in> set fs. \<exists>df. parse (full_table_name (table_name_of f)) = Some k \<and>
                csv (fi_path f) = Some df \<and>
                tables (load_files parse csv fs ?st) k = Some (replace_sentinel df)"
          by blast
        then show ?thesis
        proof cases
          case old
          show ?thesis
          proof (cases "k = k'")
            case True
            with old(2) have "tables (load_files parse csv (f # fs) st) k = Some (replace_sentinel df)"
              by (simp add: eq)
            with True Some \<open>parse (full_table_name (table_name_of f)) = Some k'\<close>
            show ?thesis by auto
          next
            case False
            with old show ?thesis by (simp add: eq)
          qed
        next
          case new
          then show ?thesis by (auto simp: eq)
        qed
      qed
    qed
  qed
qed

lemma tableExists_False:
  "(tableExists parse cat n = Inr False) = (\<exists>k. parse n = Some k \<and> k \<notin> dom cat)"
  by (auto simp: tableExists_def split: option.splits)

lemma tableExists_True:
  "(tableExists parse cat n = Inr True) = (\<exists>k. parse n = Some k \<and> k \<in> dom cat)"
  by (auto simp: tableExists_def split: option.splits)

lemma tableExists_raises:
  "(tableExists parse cat n = Inl e) = (parse n = None \<and> e = ParseException n)"
  by (auto simp: tableExists_def split: option.splits)

lemma stray_file_name:
  "full_table_name (table_name_of stray_file) = ''data_analysis.imdb_data.my-notes_txt''"
  by (simp add: full_table_name_def table_name_of_def catalog_name_def schema_name_def stray_file_def)

lemma basics_file_name:
  "full_table_name (table_name_of basics_file) = ''data_analysis.imdb_data.title_basics''"
  by (simp add: full_table_name_def table_name_of_def catalog_name_def schema_name_def basics_file_def)

lemma plain_name_stray: "plain_name ''data_analysis.imdb_data.my-notes_txt'' = None"
  by (simp add: plain_name_def is_name_char_def)

lemma plain_name_basics:
  "plain_name ''data_analysis.imdb_data.title_basics'' = Some ''data_analysis.imdb_data.title_basics''"
  by (simp add: plain_name_def is_name_char_def to_lower_def)

lemma replace_sentinel_basics: "replace_sentinel basics_table = basics_loaded"
  by (simp add: replace_sentinel_def basics_table_def basics_loaded_def null_sentinel_def)

lemma bulk_load_basics:
  "dom cat = {''data_analysis.imdb_data.title_basics''} \<Longrightarrow>
   bulk_load plain_name sample_reader (basics_file # fs) cat =
     load_files plain_name sample_reader fs
       \<lparr> tables = cat (''data_analysis.imdb_data.title_basics'' \<mapsto> basics_loaded),
         written = [''data_analysis.imdb_data.title_basics''], raised = None \<rparr>"
proof -
  assume d: "dom cat = {''data_analysis.imdb_data.title_basics''}"
  have p: "sample_reader (fi_path basics_file) = Some basics_table"
    by (simp add: sample_reader_def basics_file_def)
  show ?thesis
    by (simp add: bulk_load_def load_files_Cons basics_file_name plain_name_basics p d
        replace_sentinel_basics)
qed

lemma load_stray:
  "load_files plain_name sample_reader (stray_file # fs) st =
     st \<lparr> raised := Some (ParseException ''data_analysis.imdb_data.my-notes_txt'') \<rparr>"
  by (simp add: load_files_Cons stray_file_name plain_name_stray)

text \<open>
  C7, as the claim has it, fails for a stray file whose derived name the catalog does not
  accept as a table name. The file \<^verbatim>\<open>my-notes.txt\<close> gives the name \<^verbatim>\<open>my-notes_txt\<close>; no
  such table exists, but the file is not skipped: the existence check raises, the run stops,
  and \<^verbatim>\<open>title.basics.tsv\<close> after it is not loaded, while it is loaded when the stray file is
  not there.
\<close>

theorem loader_stray_file_counterexample:
  "tableExists plain_name sample_catalog (full_table_name (table_name_of stray_file))
     = Inl (ParseException ''data_analysis.imdb_data.my-notes_txt'') \<and>
   bulk_load plain_name sample_reader [stray_file, basics_file] sample_catalog
     = \<lparr> tables = sample_catalog, written = [],
         raised = Some (ParseException ''data_analysis.imdb_data.my-notes_txt'') \<rparr> \<and>
   bulk_load plain_name sample_reader [basics_file] sample_catalog
     = \<lparr> tables = [''data_analysis.imdb_data.title_basics'' \<mapsto> basics_loaded],
         written = [''data_analysis.imdb_data.title_basics''], raised = None \<rparr>"
proof -
  have 1: "tableExists plain_name sample_catalog (full_table_name (table_name_of stray_file))
     = Inl (ParseException ''data_analysis.imdb_data.my-notes_txt'')"
    by (simp add: tableExists_def stray_file_name plain_name_stray)
  have 2: "bulk_load plain_name sample_reader [stray_file, basics_file] sample_catalog
     = \<lparr> tables = sample_catalog, written = [],
         raised = Some (ParseException ''data_analysis.imdb_data.my-notes_txt'') \<rparr>"
    by (simp add: bulk_load_def load_stray)
  have d: "dom sample_catalog = {''data_analysis.imdb_data.title_basics''}"
    by (simp add: sample_catalog_def)
  have 3: "bulk_load plain_name sample_reader [basics_file] sample_catalog
     = \<lparr> tables = [''data_analysis.imdb_data.title_basics'' \<mapsto> basics_loaded],
         written = [''data_analysis.imdb_data.title_basics''], raised = None \<rparr>"
    by (subst bulk_load_basics [OF d]) (simp add: sample_catalog_def)
  from 1 2 3 show ?thesis by (intro conjI)
qed

text \<open>
  C7, amended. Whatever names the catalog accepts and whether the run completes or stops:
  it creates no table; every table it writes existed before under the derived name of one
  of the files; every table it does not write is as it was; a file whose derived name the
  catalog accepts and for which no table exists is skipped, the run being the one without
  the file; and a file whose derived name the catalog does not accept stops the run where
  it stands, with the tables written until then and none of the files after it.
\<close>

theorem loader_writes_existing_only:
  "dom (tables (bulk_load parse csv fs cat)) = dom cat \<and>
   (\<forall>k \<in> set (written (bulk_load parse csv fs cat)).
      \<exists>g \<in> set fs. tableExists parse cat (full_table_name (table_name_of g)) = Inr True \<and>
         parse (full_table_name (table_name_of g)) = Some k) \<and>
   (k \<notin> set (written (bulk_load parse csv fs cat)) \<longrightarrow>
      tables (bulk_load parse csv fs cat) k = cat k) \<and>
   (tableExists parse cat (full_table_name (table_name_of f)) = Inr False \<longrightarrow>
      bulk_load parse csv (fs @ f # fs') cat = bulk_load parse csv (fs @ fs') cat) \<and>
   (tableExists parse cat (full_table_name (table_name_of f)) = Inl e \<longrightarrow>
      raised (bulk_load parse csv fs cat) = None \<longrightarrow>
      bulk_load parse csv (fs @ f # fs') cat = (bulk_load parse csv fs cat) \<lparr> raised := Some e \<rparr>)"
proof -
  let ?st = "\<lparr> tables = cat, written = [], raised = None \<rparr>"
  have 1: "dom (tables (bulk_load parse csv fs cat)) = dom cat"
    by (simp add: bulk_load_def dom_load_files)
  have 2: "\<exists>g \<in> set fs. tableExists parse cat (full_table_name (table_name_of g)) = Inr True \<and>
         parse (full_table_name (table_name_of g)) = Some k"
    if "k \<in> set (written (bulk_load parse csv fs cat))" for k
    using load_files_written [of k parse csv fs ?st] that
    by (auto simp: bulk_load_def tableExists_True)
  have 3: "tables (bulk_load parse csv fs cat) k = cat k"
    if "k \<notin> set (written (bulk_load parse csv fs cat))"
    using load_files_unwritten [of k parse csv fs ?st] that by (simp add: bulk_load_def)
  have 4: "bulk_load parse csv (fs @ f # fs') cat = bulk_load parse csv (fs @ fs') cat"
    if "tableExists parse cat (full_table_name (table_name_of f)) = Inr False"
  proof -
    from that obtain k' where "parse (full_table_name (table_name_of f)) = Some k'" "k' \<notin> dom cat"
      by (auto simp: tableExists_False)
    then show ?thesis
      unfolding bulk_load_def by (intro load_files_skip) simp_all
  qed
  have 5: "bulk_load parse csv (fs @ f # fs') cat = (bulk_load parse csv fs cat) \<lparr> raised := Some e \<rparr>"
    if "tableExists parse cat (full_table_name (table_name_of f)) = Inl e"
      "raised (bulk_load parse csv fs cat) = None"
  proof -
    from that(1) have "parse (full_table_name (table_name_of f)) = None"
      "e = ParseException (full_table_name (table_name_of f))"
      by (simp_all add: tableExists_raises)
    with that(2) show ?thesis
      by (simp add: bulk_load_def load_files_append load_files_Cons)
  qed
  from 1 2 3 4 5 show ?thesis by blast
qed

theorem loader_writes_existing_only_witness:
  "bulk_load plain_name sample_reader [\<lparr> fi_path = ''/imdb/Notes.txt'', fi_name = ''Notes.txt'' \<rparr>, basics_file]
     sample_catalog
   = \<lparr> tables = [''data_analysis.imdb_data.title_basics'' \<mapsto> basics_loaded],
       written = [''data_analysis.imdb_data.title_basics''], raised = None \<rparr> \<and>
   bulk_load plain_name sample_reader [basics_file, stray_file, basics_file] sample_catalog
   = \<lparr> tables = [''data_analysis.imdb_data.title_basics'' \<mapsto> basics_loaded],
       written = [''data_analysis.imdb_data.title_basics''],
       raised = Some (ParseException ''data_analysis.imdb_data.my-notes_txt'') \<rparr> \<and>
   dom (tables (bulk_load plain_name sample_reader [basics_file, stray_file, basics_file] sample_catalog))
     = {''data_analysis.imdb_data.title_basics''}"
proof -
  let ?g = "\<lparr> fi_path = ''/imdb/Notes.txt'', fi_name = ''Notes.txt'' \<rparr>"
  have d: "dom sample_catalog = {''data_analysis.imdb_data.title_basics''}"
    by (simp add: sample_catalog_def)
  have once: "bulk_load plain_name sample_reader [basics_file] sample_catalog
     = \<lparr> tables = [''data_analysis.imdb_data.title_basics'' \<mapsto> basics_loaded],
         written = [''data_analysis.imdb_data.title_basics''], raised = None \<rparr>"
    by (subst bulk_load_basics [OF d]) (simp add: sample_catalog_def)
  have gname: "full_table_name (table_name_of ?g) = ''data_analysis.imdb_data.Notes_txt''"
    by (simp add: full_table_name_def table_name_of_def catalog_name_def schema_name_def)
  have "plain_name ''data_analysis.imdb_data.Notes_txt'' = Some ''data_analysis.imdb_data.notes_txt''"
    by (simp add: plain_name_def is_name_char_def to_lower_def)
  then have nex: "tableExists plain_name sample_catalog (full_table_name (table_name_of ?g)) = Inr False"
    by (simp add: tableExists_def gname sample_catalog_def)
  have rs: "tableExists plain_name sample_catalog (full_table_name (table_name_of stray_file))
      = Inl (ParseException ''data_analysis.imdb_data.my-notes_txt'')"
    by (simp add: tableExists_def stray_file_name plain_name_stray)
  note inst1 = loader_writes_existing_only [of plain_name sample_reader "[]" sample_catalog _ ?g "[basics_file]"]
  from inst1 nex
  have "bulk_load plain_name sample_reader ([] @ ?g # [basics_file]) sample_catalog
      = bulk_load plain_name sample_reader ([] @ [basics_file]) sample_catalog"
    by blast
  with once have a: "bulk_load plain_name sample_reader [?g, basics_file] sample_catalog
   = \<lparr> tables = [''data_analysis.imdb_data.title_basics'' \<mapsto> basics_loaded],
       written = [''data_analysis.imdb_data.title_basics''], raised = None \<rparr>"
    by simp
  note inst2 = loader_writes_existing_only [of plain_name sample_reader "[basics_file]" sample_catalog _
      stray_file "[basics_file]" "ParseException ''data_analysis.imdb_data.my-notes_txt''"]
  from inst2 rs once
  have "bulk_load plain_name sample_reader ([basics_file] @ stray_file # [basics_file]) sample_catalog
      = (bulk_load plain_name sample_reader [basics_file] sample_catalog)
          \<lparr> raised := Some (ParseException ''data_analysis.imdb_data.my-notes_txt'') \<rparr>"
    by simp
  with once have b: "bulk_load plain_name sample_reader [basics_file, stray_file, basics_file] sample_catalog
   = \<lparr> tables = [''data_analysis.imdb_data.title_basics'' \<mapsto> basics_loaded],
       written = [''data_analysis.imdb_data.title_basics''],
       raised = Some (ParseException ''data_analysis.imdb_data.my-notes_txt'') \<rparr>"
    by simp
  from loader_writes_existing_only [of plain_name sample_reader "[basics_file, stray_file, basics_file]" sample_catalog]
  have c: "dom (tables (bulk_load plain_name sample_reader [basics_file, stray_file, basics_file] sample_catalog))
     = {''data_analysis.imdb_data.title_basics''}"
    by (simp add: d)
  from a b c show ?thesis by (intro conjI)
qed

text \<open>
  C8: a second run over the same files, from the catalog the first run left, ends as the
  first did, with the same tables (equal, hence set-equal, rows), the same tables written
  and the same error if any. Each write is a full overwrite that depends on the file only:
  the table under a written key is the contents of a file of that derived name, with the null
  sentinel replaced; and two runs from catalogs with the same table names, whatever the
  tables held, write the same keys with the same contents.
\<close>

theorem loader_idempotent:
  "bulk_load parse csv fs (tables (bulk_load parse csv fs cat)) = bulk_load parse csv fs cat \<and>
   (\<forall>k \<in> set (written (bulk_load parse csv fs cat)).
      \<exists>f \<in> set fs. \<exists>df. parse (full_table_name (table_name_of f)) = Some k \<and>
         csv (fi_path f) = Some df \<and>
         tables (bulk_load parse csv fs cat) k = Some (replace_sentinel df)) \<and>
   (dom cat' = dom cat \<longrightarrow>
      written (bulk_load parse csv fs cat') = written (bulk_load parse csv fs cat) \<and>
      raised (bulk_load parse csv fs cat') = raised (bulk_load parse csv fs cat) \<and>
      (\<forall>k \<in> set (written (bulk_load parse csv fs cat)).
         tables (bulk_load parse csv fs cat') k = tables (bulk_load parse csv fs cat) k))"
proof -
  let ?st = "\<lparr> tables = cat, written = [], raised = None \<rparr>"
  let ?r = "load_files parse csv fs ?st"
  let ?st2 = "\<lparr> tables = tables ?r, written = [], raised = None \<rparr>"
  let ?r2 = "load_files parse csv fs ?st2"
  have prior: "written (load_files parse csv fs \<lparr> tables = c, written = [], raised = None \<rparr>) = written ?r \<and>
      raised (load_files parse csv fs \<lparr> tables = c, written = [], raised = None \<rparr>) = raised ?r \<and>
      (\<forall>k \<in> set (written ?r).
         tables (load_files parse csv fs \<lparr> tables = c, written = [], raised = None \<rparr>) k = tables ?r k)"
    if "dom c = dom cat" for c
    by (rule load_files_prior) (simp_all add: that)
  have same: "written ?r2 = written ?r" "raised ?r2 = raised ?r"
    "\<forall>k \<in> set (written ?r). tables ?r2 k = tables ?r k"
    using prior [of "tables ?r"] by (simp_all add: dom_load_files)
  have "tables ?r2 k = tables ?r k" for k
  proof (cases "k \<in> set (written ?r)")
    case True
    with same(3) show ?thesis by simp
  next
    case False
    with same(1) have "k \<notin> set (written ?r2)" by simp
    from load_files_unwritten [OF this] show ?thesis by simp
  qed
  then have "tables ?r2 = tables ?r" by (rule ext)
  with same(1,2) have 1: "?r2 = ?r" by (simp add: load_state.equality)
  have 2: "\<exists>f \<in> set fs. \<exists>df. parse (full_table_name (table_name_of f)) = Some k \<and>
         csv (fi_path f) = Some df \<and> tables ?r k = Some (replace_sentinel df)"
    if "k \<in> set (written ?r)" for k
    using load_files_written_table [OF that] by simp
  from 1 2 prior [of cat'] show ?thesis
    unfolding bulk_load_def by blast
qed

theorem loader_idempotent_witness:
  "bulk_load plain_name sample_reader [basics_file, stray_file]
     (tables (bulk_load plain_name sample_reader [basics_file, stray_file] sample_catalog))
   = \<lparr> tables = [''data_analysis.imdb_data.title_basics'' \<mapsto> basics_loaded],
       written = [''data_analysis.imdb_data.title_basics''],
       raised = Some (ParseException ''data_analysis.imdb_data.my-notes_txt'') \<rparr> \<and>
   tables (bulk_load plain_name sample_reader [basics_file, stray_file] other_catalog)
     ''data_analysis.imdb_data.title_basics''
   = Some (replace_sentinel basics_table)"
proof -
  let ?fs = "[basics_file, stray_file]"
  let ?k = "''data_analysis.imdb_data.title_basics''"
  have d: "dom sample_catalog = {?k}"
    by (simp add: sample_catalog_def)
  have d': "dom other_catalog = dom sample_catalog"
    by (simp add: sample_catalog_def other_catalog_def)
  have once: "bulk_load plain_name sample_reader ?fs sample_catalog
     = \<lparr> tables = [?k \<mapsto> basics_loaded], written = [?k],
         raised = Some (ParseException ''data_analysis.imdb_data.my-notes_txt'') \<rparr>"
    by (subst bulk_load_basics [OF d]) (simp add: sample_catalog_def load_stray)
  note idem = loader_idempotent [of plain_name sample_reader ?fs sample_catalog other_catalog]
  from idem have "bulk_load plain_name sample_reader ?fs
       (tables (bulk_load plain_name sample_reader ?fs sample_catalog))
     = bulk_load plain_name sample_reader ?fs sample_catalog"
    by (rule conjunct1)
  with once have a: "bulk_load plain_name sample_reader ?fs
       (tables (bulk_load plain_name sample_reader ?fs sample_catalog))
     = \<lparr> tables = [?k \<mapsto> basics_loaded], written = [?k],
         raised = Some (ParseException ''data_analysis.imdb_data.my-notes_txt'') \<rparr>"
    by simp
  from idem d' have "\<forall>k \<in> set (written (bulk_load plain_name sample_reader ?fs sample_catalog)).
      tables (bulk_load plain_name sample_reader ?fs other_catalog) k
      = tables (bulk_load plain_name sample_reader ?fs sample_catalog) k"
    by blast
  then have b: "tables (bulk_load plain_name sample_reader ?fs other_catalog) ?k
      = Some (replace_sentinel basics_table)"
    by (simp add: once replace_sentinel_basics)
  from a b show ?thesis by (rule conjI)
qed

subsection \<open>The box-office fetcher\<close>

lemma append_year_ok:
  "map_of d ''Release Date'' = Some v \<Longrightarrow>
   append_year y d = Inr (AList.update ''Release Date'' (v @ '' '' @ str y) d)"
  by (simp add: append_year_def dict_get_def)

lemma append_year_all_ok:
  "\<forall>d \<in> set es. map_of d ''Release Date'' \<noteq> None \<Longrightarrow>
   append_year_all y es =
     Inr (map (\<lambda>d. AList.update ''Release Date'' (the (map_of d ''Release Date'') @ '' '' @ str y) d) es)"
  by (induction es) (auto simp: append_year_ok)

lemma fetch_years_ok:
  "\<forall>y \<in> set ys. \<exists>es. get_yearly y = Inr es \<and> (\<forall>d \<in> set es. map_of d ''Release Date'' \<noteq> None) \<Longrightarrow>
   fetch_years get_yearly ys st =
     Inr \<lparr> requests = requests st @ ys,
           json_data = json_data st @
             map (\<lambda>y. map (\<lambda>d. AList.update ''Release Date''
                                  (the (map_of d ''Release Date'') @ '' '' @ str y) d)
                           (projr (get_yearly y))) ys \<rparr>"
proof (induction ys arbitrary: st)
  case Nil
  then show ?case by simp
next
  case (Cons y ys)
  from Cons.prems obtain es where es: "get_yearly y = Inr es"
    "\<forall>d \<in> set es. map_of d ''Release Date'' \<noteq> None"
    by auto
  from Cons.prems have rest: "\<forall>y \<in> set ys. \<exists>es. get_yearly y = Inr es \<and>
      (\<forall>d \<in> set es. map_of d ''Release Date'' \<noteq> None)"
    by simp
  show ?case
    by (simp add: es append_year_all_ok [OF es(2)] Cons.IH [OF rest])
qed

lemma digit_val_digit_char: "n < 10 \<Longrightarrow> digit_val (digit_char n) = n"
proof -
  assume "n < 10"
  then have "n \<in> {0, 1, 2, 3, 4, 5, 6, 7, 8, 9}" by auto
  then show ?thesis by (auto simp: digit_val_def digit_char_def)
qed

lemma is_digit_digit_char: "n < 10 \<Longrightarrow> is_digit (digit_char n)"
proof -
  assume "n < 10"
  then have "n \<in> {0, 1, 2, 3, 4, 5, 6, 7, 8, 9}" by auto
  then show ?thesis by (auto simp: is_digit_def digit_char_def)
qed

lemma dec_value_snoc: "dec_value (ds @ [c]) = 10 * dec_value ds + digit_val c"
  by (simp add: dec_value_def)

text \<open>\<^verbatim>\<open>str\<close> writes a natural number in decimal digits: reading them back gives the number.\<close>

lemma str_nat_digits: "list_all is_digit (str_nat n) \<and> dec_value (str_nat n) = n"
proof (induction n rule: str_nat.induct)
  case (1 n)
  show ?case
  proof (cases "n < 10")
    case True
    then show ?thesis
      by (subst (1 2) str_nat.simps) (simp add: is_digit_digit_char digit_val_digit_char dec_value_def)
  next
    case False
    with 1 have ih: "list_all is_digit (str_nat (n div 10))" "dec_value (str_nat (n div 10)) = n div 10"
      by simp_all
    have m: "n mod 10 < 10" by simp
    from False ih show ?thesis
      by (subst (1 2) str_nat.simps)
         (simp add: dec_value_snoc is_digit_digit_char [OF m] digit_val_digit_char [OF m])
  qed
qed

lemma length_year_range: "length year_range = 15"
  by (simp add: year_range_def)

text \<open>
  C9: when the provider answers every year of the range and every entry has a release date,
  the fetcher issues exactly one request per year, in year order, and \<^verbatim>\<open>json_data\<close> has one
  inner list per year (fifteen), in year order, with one entry per entry returned; in each
  entry the release date is the provider's text, a space and the decimal digits of the
  year, and every other key is unchanged.
\<close>

theorem fetcher_appends_year:
  "\<forall>y \<in> set year_range. \<exists>es. get_yearly y = Inr es \<and> (\<forall>d \<in> set es. map_of d ''Release Date'' \<noteq> None) \<Longrightarrow>
   \<exists>st. fetch_box_office get_yearly = Inr st \<and>
        requests st = year_range \<and>
        length (json_data st) = 15 \<and> length year_range = 15 \<and>
        (\<forall>i < 15.
           \<exists>es. get_yearly (year_range ! i) = Inr es \<and>
                year_range ! i = 2010 + int i \<and>
                length (json_data st ! i) = length es \<and>
                (\<forall>j < length es.
                   \<exists>v. map_of (es ! j) ''Release Date'' = Some v \<and>
                       map_of (json_data st ! i ! j) ''Release Date''
                         = Some (v @ '' '' @ str (year_range ! i)) \<and>
                       (\<forall>k. k \<noteq> ''Release Date'' \<longrightarrow>
                          map_of (json_data st ! i ! j) k = map_of (es ! j) k))) \<and>
        (\<forall>y \<in> set year_range. list_all is_digit (str y) \<and> int (dec_value (str y)) = y)"
proof -
  assume a: "\<forall>y \<in> set year_range. \<exists>es. get_yearly y = Inr es \<and>
      (\<forall>d \<in> set es. map_of d ''Release Date'' \<noteq> None)"
  let ?ann = "\<lambda>y d. AList.update ''Release Date'' (the (map_of d ''Release Date'') @ '' '' @ str y) d"
  let ?st = "\<lparr> requests = year_range,
               json_data = map (\<lambda>y. map (?ann y) (projr (get_yearly y))) year_range \<rparr>"
  have f: "fetch_box_office get_yearly = Inr ?st"
    unfolding fetch_box_office_def by (subst fetch_years_ok [OF a]) simp
  have inner: "\<exists>es. get_yearly (year_range ! i) = Inr es \<and>
                year_range ! i = 2010 + int i \<and>
                length (json_data ?st ! i) = length es \<and>
                (\<forall>j < length es.
                   \<exists>v. map_of (es ! j) ''Release Date'' = Some v \<and>
                       map_of (json_data ?st ! i ! j) ''Release Date''
                         = Some (v @ '' '' @ str (year_range ! i)) \<and>
                       (\<forall>k. k \<noteq> ''Release Date'' \<longrightarrow>
                          map_of (json_data ?st ! i ! j) k = map_of (es ! j) k))"
    if i: "i < 15" for i
  proof -
    from i have il: "i < length year_range" by (simp add: length_year_range)
    then have "year_range ! i \<in> set year_range" by simp
    with a obtain es where es: "get_yearly (year_range ! i) = Inr es"
      "\<forall>d \<in> set es. map_of d ''Release Date'' \<noteq> None"
      by blast
    have yi: "year_range ! i = 2010 + int i"
      unfolding year_range_def using i by (subst nth_upto) simp_all
    have "\<exists>v. map_of (es ! j) ''Release Date'' = Some v \<and>
            map_of (?ann (year_range ! i) (es ! j)) ''Release Date''
              = Some (v @ '' '' @ str (year_range ! i)) \<and>
            (\<forall>k. k \<noteq> ''Release Date'' \<longrightarrow>
               map_of (?ann (year_range ! i) (es ! j)) k = map_of (es ! j) k)"
      if "j < length es" for j
    proof -
      from that es(2) obtain v where "map_of (es ! j) ''Release Date'' = Some v"
        by (metis nth_mem not_None_eq)
      then show ?thesis by (simp add: update_conv')
    qed
    with il es(1) yi show ?thesis by simp
  qed
  have digits: "\<forall>y \<in> set year_range. list_all is_digit (str y) \<and> int (dec_value (str y)) = y"
    by (auto simp: year_range_def str_def str_nat_digits)
  from f inner digits show ?thesis by (simp add: length_year_range)
qed

theorem fetcher_appends_year_witness:
  "\<exists>st. fetch_box_office (\<lambda>y. Inr [[(''Release'', ''A''), (''Release Date'', ''Jan 1'')]]) = Inr st \<and>
        requests st = [2010, 2011, 2012, 2013, 2014, 2015, 2016, 2017, 2018, 2019, 2020, 2021,
                       2022, 2023, 2024] \<and>
        length (json_data st) = 15 \<and>
        map_of (json_data st ! 10 ! 0) ''Release Date'' = Some ''Jan 1 2020'' \<and>
        map_of (json_data st ! 10 ! 0) ''Release'' = Some ''A''"
proof -
  let ?p = "\<lambda>y :: int. (Inr [[(''Release'', ''A''), (''Release Date'', ''Jan 1'')]] :: py_error + entry list)"
  have h: "\<forall>y \<in> set year_range. \<exists>es. ?p y = Inr es \<and> (\<forall>d \<in> set es. map_of d ''Release Date'' \<noteq> None)"
    by simp
  from fetcher_appends_year [OF h] obtain st where st: "fetch_box_office ?p = Inr st"
    "requests st = year_range" "length (json_data st) = 15"
    and all: "\<forall>i < 15.
           \<exists>es. ?p (year_range ! i) = Inr es \<and>
                year_range ! i = 2010 + int i \<and>
                length (json_data st ! i) = length es \<and>
                (\<forall>j < length es.
                   \<exists>v. map_of (es ! j) ''Release Date'' = Some v \<and>
                       map_of (json_data st ! i ! j) ''Release Date''
                         = Some (v @ '' '' @ str (year_range ! i)) \<and>
                       (\<forall>k. k \<noteq> ''Release Date'' \<longrightarrow>
                          map_of (json_data st ! i ! j) k = map_of (es ! j) k))"
    by blast
  have s2020: "str 2020 = ''2020''"
    by (simp add: str_def str_nat.simps digit_char_def)
  from all have "\<exists>es. ?p (year_range ! 10) = Inr es \<and>
                year_range ! 10 = 2010 + int 10 \<and>
                length (json_data st ! 10) = length es \<and>
                (\<forall>j < length es.
                   \<exists>v. map_of (es ! j) ''Release Date'' = Some v \<and>
                       map_of (json_data st ! 10 ! j) ''Release Date''
                         = Some (v @ '' '' @ str (year_range ! 10)) \<and>
                       (\<forall>k. k \<noteq> ''Release Date'' \<longrightarrow>
                          map_of (json_data st ! 10 ! j) k = map_of (es ! j) k))"
    by simp
  then have "map_of (json_data st ! 10 ! 0) ''Release Date'' = Some ''Jan 1 2020'' \<and>
             map_of (json_data st ! 10 ! 0) ''Release'' = Some ''A''"
    by (auto simp: s2020)
  with st show ?thesis by (auto simp: year_range_def)
qed

subsection \<open>The cast of the gross columns\<close>

lemma bit_length_0 [simp]: "bit_length 0 = 0"
  by (simp add: bit_length.simps)

lemma bit_length_pos: "0 < n \<Longrightarrow> bit_length n = Suc (bit_length (n div 2))"
  by (subst bit_length.simps) simp

lemma bit_length_bounds: "0 < n \<Longrightarrow> 2 ^ (bit_length n - 1) \<le> n \<and> n < 2 ^ bit_length n"
proof (induction n rule: bit_length.induct)
  case (1 n)
  show ?case
  proof (cases "n div 2 = 0")
    case True
    with "1.prems" have "n = 1" by auto
    then show ?thesis by (simp add: bit_length_pos)
  next
    case False
    with 1 have ih: "2 ^ (bit_length (n div 2) - 1) \<le> n div 2" "n div 2 < 2 ^ bit_length (n div 2)"
      by auto
    from False have p: "0 < bit_length (n div 2)"
      by (simp add: bit_length_pos)
    then obtain k where k: "bit_length (n div 2) = Suc k"
      by (cases "bit_length (n div 2)") auto
    from ih k have "2 ^ k \<le> n div 2" "n div 2 < 2 ^ Suc k" by simp_all
    then have "2 * 2 ^ k \<le> n" "n < 2 * 2 ^ Suc k" by auto
    with "1.prems" k show ?thesis by (simp add: bit_length_pos)
  qed
qed

lemma bit_length_1 [simp]: "bit_length (Suc 0) = Suc 0"
  by (simp add: bit_length_pos)

lemma floor_log2_nat: "0 < n \<Longrightarrow> floor_log2 n (Suc 0) = int (bit_length n) - 1"
  using bit_length_bounds [of n]
  by (auto simp: floor_log2_def Let_def bit_length_pos nat_diff_distrib)

lemma binary32_exact: "n < 2 ^ 24 \<Longrightarrow> binary32_round n (Suc 0) = Some (of_nat n)"
proof (cases "n = 0")
  case True
  then show ?thesis by (simp add: binary32_round_def)
next
  case False
  assume n: "n < 2 ^ 24"
  from False have pos: "0 < n" by simp
  have bl: "bit_length n \<le> 24"
  proof (rule ccontr)
    assume "\<not> bit_length n \<le> 24"
    then have "24 \<le> bit_length n - 1" by simp
    then have "(2::nat) ^ 24 \<le> 2 ^ (bit_length n - 1)"
      by (rule power_increasing) simp
    with bit_length_bounds [OF pos] n show False by simp
  qed
  from pos have blp: "0 < bit_length n" by (simp add: bit_length_pos)
  define u where "u = int (bit_length n) - 24"
  have u: "max (floor_log2 n (Suc 0)) (- 126) - 23 = u"
    using blp by (simp add: floor_log2_nat [OF pos] u_def)
  have ule: "u \<le> 0" using bl by (simp add: u_def)
  have small: "\<not> (2::rat) ^ 128 \<le> of_nat n"
  proof -
    from n have "of_nat n < (of_nat (2 ^ 24) :: rat)" by (simp only: of_nat_less_iff)
    then show ?thesis by simp
  qed
  show ?thesis
  proof (cases "u = 0")
    case True
    with False small show ?thesis
      by (simp add: binary32_round_def u Let_def)
  next
    case neg: False
    with ule have "u < 0" by simp
    with False small show ?thesis
      by (simp add: binary32_round_def u Let_def)
  qed
qed

lemma to_float_exact_Suc: "n < 2 ^ 24 \<Longrightarrow> to_float False n (Suc 0) = Finite (of_nat n)"
  by (simp add: to_float_def binary32_exact)

lemma to_float_exact: "n < 2 ^ 24 \<Longrightarrow> to_float False n 1 = Finite (of_nat n)"
  by (simp add: to_float_exact_Suc)

lemma filter_concat_strip:
  "concat (map (\<lambda>x. if x = c then [] else [x]) s) = filter (\<lambda>x. x \<noteq> c) s"
  by (induction s) auto

lemma is_digit_not_space: "is_digit c \<Longrightarrow> \<not> is_space c"
  by (auto simp: is_digit_def is_space_def)

lemma java_trim_digits: "list_all is_digit ds \<Longrightarrow> java_trim ds = ds"
proof (cases ds rule: rev_cases)
  case Nil
  then show ?thesis by (simp add: java_trim_def)
next
  case (snoc xs x)
  assume a: "list_all is_digit ds"
  with snoc have x: "\<not> is_space x" by (simp add: is_digit_not_space)
  show ?thesis
  proof (cases ds)
    case Nil
    then show ?thesis by (simp add: java_trim_def)
  next
    case (Cons y ys)
    with a have "\<not> is_space y" by (simp add: is_digit_not_space)
    with Cons have "dropWhile is_space ds = ds" by simp
    with snoc x show ?thesis by (simp add: java_trim_def)
  qed
qed

lemma takeWhile_all: "list_all P xs \<Longrightarrow> takeWhile P xs = xs"
  by (induction xs) auto

lemma dropWhile_all: "list_all P xs \<Longrightarrow> dropWhile P xs = []"
  by (induction xs) auto

lemma parseFloat_digits:
  "ds \<noteq> [] \<Longrightarrow> list_all is_digit ds \<Longrightarrow> parseFloat ds = Some (to_float False (dec_value ds) 1)"
proof -
  assume ne: "ds \<noteq> []" and dg: "list_all is_digit ds"
  from ne obtain c t where ds: "ds = c # t" by (cases ds) auto
  with dg have c: "is_digit c" and t: "list_all is_digit t" by simp_all
  from c have cs: "c \<noteq> CHR ''-''" "c \<noteq> CHR ''+''" "c \<noteq> CHR ''N''" "c \<noteq> CHR ''I''"
    by (auto simp: is_digit_def)
  have nohex: "\<not> (case t of [] \<Rightarrow> False | x # t' \<Rightarrow> x = CHR ''x'' \<or> x = CHR ''X'')"
    using t by (cases t) (auto simp: is_digit_def)
  have "take_sign ds = (False, ds)"
    using cs by (simp add: take_sign_def ds)
  then have sign: "take_sign (java_trim ds) = (False, ds)"
    by (simp only: java_trim_digits [OF dg])
  have dec: "decimal_literal False ds = Some (to_float False (dec_value ds) 1)"
    using ne
    by (simp add: decimal_literal_def mantissa_def decimal_exponent_def takeWhile_all [OF dg]
        dropWhile_all [OF dg] scaled_def)
  show ?thesis
    using sign cs nohex dec by (simp add: parseFloat_def ds)
qed

lemma strip_gross_pattern:
  "gross_pattern s \<Longrightarrow>
   regexp_replace (regexp_replace (Some s) (CHR ''$'') []) (CHR '','') [] = Some (filter is_digit s) \<and>
   filter is_digit s \<noteq> [] \<and> list_all is_digit (filter is_digit s)"
proof -
  assume "gross_pattern s"
  then obtain d t where s: "s = CHR ''$'' # d # t" and d: "is_digit d"
    and t: "list_all (\<lambda>x. x = CHR '','' \<or> is_digit x) t"
    by (auto simp: gross_pattern_def split: list.splits)
  have nd: "\<not> is_digit (CHR ''$'')" "\<not> is_digit (CHR '','')"
    by (simp_all add: is_digit_def)
  from d nd have dn: "d \<noteq> CHR ''$''" "d \<noteq> CHR '',''" by auto
  have "filter (\<lambda>x. x \<noteq> CHR '','') (filter (\<lambda>x. x \<noteq> CHR ''$'') t) = filter is_digit t"
    using t nd by (induction t) auto
  with d dn nd show ?thesis
    by (simp add: regexp_replace_def filter_concat_strip s list_all_iff)
qed

lemma clean_gross_pattern:
  "gross_pattern s \<Longrightarrow>
   clean_gross (Some s) = Inr (Some (to_float False (dec_value (filter is_digit s)) 1))"
  using strip_gross_pattern [of s]
  by (simp add: clean_gross_def cast_float_def parseFloat_digits)


lemma clean_gross_10000: "clean_gross (Some ''$10,000'') = Inr (Some (Finite 10000))"
proof -
  have "gross_pattern ''$10,000''" by (simp add: gross_pattern_def is_digit_def)
  then have "clean_gross (Some ''$10,000'') = Inr (Some (to_float False (dec_value (filter is_digit ''$10,000'')) 1))"
    by (rule clean_gross_pattern)
  also have "dec_value (filter is_digit ''$10,000'') = 10000"
    by (simp add: is_digit_def dec_value_def digit_val_def)
  also have "to_float False 10000 1 = Finite (of_nat 10000)"
    by (rule to_float_exact) simp
  finally show ?thesis by simp
qed

lemma clean_gross_50000: "clean_gross (Some ''$50,000'') = Inr (Some (Finite 50000))"
proof -
  have "gross_pattern ''$50,000''" by (simp add: gross_pattern_def is_digit_def)
  then have "clean_gross (Some ''$50,000'') = Inr (Some (to_float False (dec_value (filter is_digit ''$50,000'')) 1))"
    by (rule clean_gross_pattern)
  also have "dec_value (filter is_digit ''$50,000'') = 50000"
    by (simp add: is_digit_def dec_value_def digit_val_def)
  also have "to_float False 50000 1 = Finite (of_nat 50000)"
    by (rule to_float_exact) simp
  finally show ?thesis by simp
qed

subsection \<open>The end-to-end scenario\<close>

lemma to_date_jan_1_2020:
  "to_date (Some ''Jan 1 2020'') = Some \<lparr> year = 2020, month = 1, day = 1 \<rparr>"
  by (simp add: to_date_def to_lower_def month_names_def dec_value_def digit_val_def
      days_in_month_def is_digit_def leap_year_def)

lemma primary_genre_action_drama: "primary_genre (Some ''Action,Drama'') = Inr (Some ''Action'')"
  by (simp add: primary_genre_Some genres_def)

text \<open>
  C1: for the title \<^verbatim>\<open>tt001\<close> "Sample Movie" (genres \<^verbatim>\<open>Action,Drama\<close>, a movie, not adult, with its
  rating row) and the box-office record of "Sample Movie" (\<^verbatim>\<open>Jan 1 2020\<close>, \<^verbatim>\<open>$10,000\<close>,
  \<^verbatim>\<open>$50,000\<close>), the cell produces exactly one merged row, with primary genre \<^verbatim>\<open>Action\<close>, gross
  earnings 10000.0, total gross earnings 50000.0 and release date 2020-01-01.
\<close>

theorem end_to_end_scenario:
  "omdb_analysis
     [[[(''Release'', ''Sample Movie''), (''Release Date'', ''Jan 1 2020''),
        (''Gross'', ''$10,000''), (''Total Gross'', ''$50,000'')]]]
     [\<lparr> tb_tconst = Some ''tt001'', tb_titleType = Some ''movie'',
        tb_primaryTitle = Some ''Sample Movie'', tb_isAdult = Some ''0'',
        tb_runtimeMinutes = None, tb_genres = Some ''Action,Drama'' \<rparr>]
     [\<lparr> tr_tconst = Some ''tt001'', tr_averageRating = Some ''7.5'', tr_numVotes = Some ''1000'' \<rparr>]
   = Inr [\<lparr> tconst = Some ''tt001'', primaryTitle = Some ''Sample Movie'', runtimeMinutes = None,
            averageRating = Some ''7.5'', numVotes = Some ''1000'', Primary_Genre = Some ''Action'',
            Release = Some ''Sample Movie'',
            Release_Date = Some \<lparr> year = 2020, month = 1, day = 1 \<rparr>,
            Gross_Earnings = Some (Finite 10000), Total_Gross_Earnings = Some (Finite 50000),
            other = [] \<rparr>]"
  by (simp add: omdb_analysis_def imdb_df_def imdb_query_def imdb_where_def sql_eq_def
      imdb_select_def with_primary_genre_def primary_genre_action_drama read_json_def
      box_office_row_def unresolved_column_def has_column_def clean_def cast_gross_columns_def
      with_release_date_def clean_gross_10000 clean_gross_50000 to_date_jan_1_2020
      inner_join_def join_matches_def merge_def)

theorem end_to_end_scenario_witness:
  "\<exists>m. omdb_analysis
         [[[(''Release'', ''Sample Movie''), (''Release Date'', ''Jan 1 2020''),
            (''Gross'', ''$10,000''), (''Total Gross'', ''$50,000'')]]]
         [\<lparr> tb_tconst = Some ''tt001'', tb_titleType = Some ''movie'',
            tb_primaryTitle = Some ''Sample Movie'', tb_isAdult = Some ''0'',
            tb_runtimeMinutes = None, tb_genres = Some ''Action,Drama'' \<rparr>]
         [\<lparr> tr_tconst = Some ''tt001'', tr_averageRating = Some ''7.5'', tr_numVotes = Some ''1000'' \<rparr>]
       = Inr [m] \<and>
       Primary_Genre m = Some ''Action'' \<and> Gross_Earnings m = Some (Finite 10000) \<and>
       Total_Gross_Earnings m = Some (Finite 50000) \<and>
       Release_Date m = Some \<lparr> year = 2020, month = 1, day = 1 \<rparr>"
  using end_to_end_scenario by simp

subsection \<open>The parser accepts exactly the documented grammar\<close>

lemma span_append:
  "list_all P xs \<Longrightarrow> ys = [] \<or> \<not> P (hd ys) \<Longrightarrow>
   takeWhile P (xs @ ys) = xs \<and> dropWhile P (xs @ ys) = ys"
proof -
  assume xs: "list_all P xs" and ys: "ys = [] \<or> \<not> P (hd ys)"
  from ys have base: "takeWhile P ys = [] \<and> dropWhile P ys = ys"
    by (cases ys) auto
  from xs show ?thesis
    by (induction xs) (simp_all add: base)
qed

lemma span_split: "list_all P (takeWhile P xs) \<and> (dropWhile P xs = [] \<or> \<not> P (hd (dropWhile P xs)))"
  by (induction xs) auto

lemma is_suffix_hd: "is_suffix sf \<Longrightarrow> sf = [] \<or> \<not> is_digit (hd sf)"
  by (auto simp: is_suffix_def is_digit_def)

lemma exponent_part_iff:
  "(exponent_part t \<noteq> None) = (\<exists>sg ds sf. t = sg @ ds @ sf \<and> sign_text sg \<and> digits_text ds \<and> is_suffix sf)"
proof
  assume a: "exponent_part t \<noteq> None"
  obtain eneg t' where ts: "take_sign t = (eneg, t')" by (cases "take_sign t")
  then obtain sg where sg: "t = sg @ t'" "sign_text sg"
    by (auto simp: take_sign_def sign_text_def split: list.splits if_splits)
  let ?ds = "takeWhile is_digit t'"
  let ?r = "dropWhile is_digit t'"
  from a ts have "?ds \<noteq> []" "is_suffix ?r"
    by (auto simp: exponent_part_def Let_def split: if_splits)
  moreover have "t = sg @ ?ds @ ?r" using sg by simp
  moreover have "list_all is_digit ?ds" using span_split [of is_digit t'] by simp
  ultimately show "\<exists>sg ds sf. t = sg @ ds @ sf \<and> sign_text sg \<and> digits_text ds \<and> is_suffix sf"
    using sg(2) unfolding digits_text_def by blast
next
  assume "\<exists>sg ds sf. t = sg @ ds @ sf \<and> sign_text sg \<and> digits_text ds \<and> is_suffix sf"
  then obtain sg ds sf where t: "t = sg @ ds @ sf" and sg: "sign_text sg"
    and ds: "ds \<noteq> []" "list_all is_digit ds" and sf: "is_suffix sf"
    by (auto simp: digits_text_def)
  from ds obtain d ds' where d: "ds = d # ds'" "is_digit d" by (cases ds) auto
  then have dn: "d \<noteq> CHR ''-''" "d \<noteq> CHR ''+''" by (auto simp: is_digit_def)
  have "\<exists>eneg. take_sign t = (eneg, ds @ sf)"
    using sg dn d(1) by (auto simp: take_sign_def sign_text_def t)
  then obtain eneg where ts: "take_sign t = (eneg, ds @ sf)" ..
  from span_append [OF ds(2) is_suffix_hd [OF sf]]
  have "takeWhile is_digit (ds @ sf) = ds" "dropWhile is_digit (ds @ sf) = sf" by simp_all
  with ts ds(1) sf show "exponent_part t \<noteq> None"
    by (simp add: exponent_part_def Let_def)
qed


lemma mantissa_sound:
  "mantissa P r = (ip, dot, fp, r2) \<Longrightarrow>
   r = ip @ (if dot then ''.'' else []) @ fp @ r2 \<and> list_all P ip \<and> list_all P fp \<and>
   (dot \<or> fp = [])"
proof -
  assume m: "mantissa P r = (ip, dot, fp, r2)"
  have r: "r = takeWhile P r @ dropWhile P r" by simp
  show ?thesis
  proof (cases "dropWhile P r")
    case Nil
    with m r span_split [of P r] show ?thesis
      by (auto simp: mantissa_def Let_def list_all_iff)
  next
    case (Cons c t)
    show ?thesis
    proof (cases "c = CHR ''.''")
      case True
      with m Cons have "ip = takeWhile P r" "dot" "fp = takeWhile P t" "r2 = dropWhile P t"
        by (auto simp: mantissa_def Let_def)
      moreover have "r = takeWhile P r @ ''.'' @ takeWhile P t @ dropWhile P t"
        using r Cons True by simp
      ultimately show ?thesis
        using span_split [of P r] span_split [of P t] by simp
    next
      case False
      with m Cons have "ip = takeWhile P r" "\<not> dot" "fp = []" "r2 = dropWhile P r"
        by (auto simp: mantissa_def Let_def)
      with r span_split [of P r] show ?thesis by simp
    qed
  qed
qed

lemma mantissa_complete:
  "list_all P ip \<Longrightarrow> list_all P fp \<Longrightarrow> \<not> P (CHR ''.'') \<Longrightarrow> dot \<or> fp = [] \<Longrightarrow>
   r2 = [] \<or> (\<not> P (hd r2) \<and> (dot \<or> hd r2 \<noteq> CHR ''.'')) \<Longrightarrow>
   mantissa P (ip @ (if dot then ''.'' else []) @ fp @ r2) = (ip, dot, fp, r2)"
proof -
  assume ip: "list_all P ip" and fp: "list_all P fp" and np: "\<not> P (CHR ''.'')"
    and df: "dot \<or> fp = []" and r2: "r2 = [] \<or> (\<not> P (hd r2) \<and> (dot \<or> hd r2 \<noteq> CHR ''.''))"
  show ?thesis
  proof (cases dot)
    case True
    have 1: "takeWhile P (ip @ CHR ''.'' # fp @ r2) = ip \<and>
             dropWhile P (ip @ CHR ''.'' # fp @ r2) = CHR ''.'' # fp @ r2"
      using span_append [OF ip, of "CHR ''.'' # fp @ r2"] np by simp
    have 2: "takeWhile P (fp @ r2) = fp \<and> dropWhile P (fp @ r2) = r2"
      using span_append [OF fp, of r2] r2 by auto
    from True 1 2 show ?thesis by (simp add: mantissa_def Let_def)
  next
    case False
    with df have f: "fp = []" by simp
    have 1: "takeWhile P (ip @ r2) = ip \<and> dropWhile P (ip @ r2) = r2"
      using span_append [OF ip, of r2] r2 by auto
    from False r2 have "r2 = [] \<or> hd r2 \<noteq> CHR ''.''" by auto
    with False f 1 show ?thesis
      by (cases r2)
         (simp_all add: mantissa_def Let_def takeWhile_all [OF ip] dropWhile_all [OF ip])
  qed
qed

lemma exponent_text_hd: "exponent_text ind ex \<Longrightarrow> ex \<noteq> [] \<and> hd ex \<in> ind"
  by (auto simp: exponent_text_def)

lemma exponent_text_Cons:
  "exponent_text ind (c # t) = (c \<in> ind \<and> (\<exists>sg ds. t = sg @ ds \<and> sign_text sg \<and> digits_text ds))"
  by (auto simp: exponent_text_def)

lemma exponent_suffix_iff:
  "(exponent_part t \<noteq> None) =
     (\<exists>ex' sf. t = ex' @ sf \<and> (\<exists>sg ds. ex' = sg @ ds \<and> sign_text sg \<and> digits_text ds) \<and> is_suffix sf)"
  unfolding exponent_part_iff by (metis append.assoc)

lemma decimal_exponent_iff:
  "(decimal_exponent r2 \<noteq> None) =
     (\<exists>ex sf. r2 = ex @ sf \<and> (ex = [] \<or> exponent_text {CHR ''e'', CHR ''E''} ex) \<and> is_suffix sf)"
proof (cases r2)
  case Nil
  then show ?thesis by (simp add: decimal_exponent_def is_suffix_def)
next
  case (Cons c t)
  show ?thesis
  proof (cases "c = CHR ''e'' \<or> c = CHR ''E''")
    case True
    then have ns: "\<not> is_suffix (c # t)" by (auto simp: is_suffix_def)
    have "(decimal_exponent r2 \<noteq> None) = (exponent_part t \<noteq> None)"
      using True Cons by (auto simp: decimal_exponent_def)
    also have "\<dots> = (\<exists>ex' sf. t = ex' @ sf \<and>
        (\<exists>sg ds. ex' = sg @ ds \<and> sign_text sg \<and> digits_text ds) \<and> is_suffix sf)"
      by (rule exponent_suffix_iff)
    also have "\<dots> = (\<exists>ex sf. r2 = ex @ sf \<and> (ex = [] \<or> exponent_text {CHR ''e'', CHR ''E''} ex) \<and> is_suffix sf)"
    proof
      assume "\<exists>ex' sf. t = ex' @ sf \<and>
        (\<exists>sg ds. ex' = sg @ ds \<and> sign_text sg \<and> digits_text ds) \<and> is_suffix sf"
      then obtain ex' sf where "t = ex' @ sf"
        "\<exists>sg ds. ex' = sg @ ds \<and> sign_text sg \<and> digits_text ds" "is_suffix sf"
        by blast
      with True Cons have "r2 = (c # ex') @ sf \<and> exponent_text {CHR ''e'', CHR ''E''} (c # ex') \<and> is_suffix sf"
        by (auto simp: exponent_text_Cons)
      then show "\<exists>ex sf. r2 = ex @ sf \<and> (ex = [] \<or> exponent_text {CHR ''e'', CHR ''E''} ex) \<and> is_suffix sf"
        by blast
    next
      assume "\<exists>ex sf. r2 = ex @ sf \<and> (ex = [] \<or> exponent_text {CHR ''e'', CHR ''E''} ex) \<and> is_suffix sf"
      then obtain ex sf where e: "r2 = ex @ sf" "ex = [] \<or> exponent_text {CHR ''e'', CHR ''E''} ex"
        "is_suffix sf"
        by blast
      from e(1,3) ns Cons have "ex \<noteq> []" by auto
      with e(2) have et: "exponent_text {CHR ''e'', CHR ''E''} ex" by simp
      then obtain c' ex' where ex: "ex = c' # ex'" by (cases ex) (auto simp: exponent_text_def)
      with e(1) Cons have "t = ex' @ sf" by simp
      moreover from et ex have "\<exists>sg ds. ex' = sg @ ds \<and> sign_text sg \<and> digits_text ds"
        by (simp add: exponent_text_Cons)
      ultimately show "\<exists>ex' sf. t = ex' @ sf \<and>
        (\<exists>sg ds. ex' = sg @ ds \<and> sign_text sg \<and> digits_text ds) \<and> is_suffix sf"
        using e(3) by blast
    qed
    finally show ?thesis .
  next
    case False
    have "(decimal_exponent r2 \<noteq> None) = is_suffix r2"
      using False Cons by (auto simp: decimal_exponent_def)
    also have "\<dots> = (\<exists>ex sf. r2 = ex @ sf \<and> (ex = [] \<or> exponent_text {CHR ''e'', CHR ''E''} ex) \<and> is_suffix sf)"
    proof
      assume "is_suffix r2"
      then have "r2 = [] @ r2 \<and> ([] = [] \<or> exponent_text {CHR ''e'', CHR ''E''} []) \<and> is_suffix r2"
        by simp
      then show "\<exists>ex sf. r2 = ex @ sf \<and> (ex = [] \<or> exponent_text {CHR ''e'', CHR ''E''} ex) \<and> is_suffix sf"
        by blast
    next
      assume "\<exists>ex sf. r2 = ex @ sf \<and> (ex = [] \<or> exponent_text {CHR ''e'', CHR ''E''} ex) \<and> is_suffix sf"
      then obtain ex sf where e: "r2 = ex @ sf" "ex = [] \<or> exponent_text {CHR ''e'', CHR ''E''} ex"
        "is_suffix sf"
        by blast
      have "ex = []"
      proof (rule ccontr)
        assume "ex \<noteq> []"
        with e(2) have "hd ex \<in> {CHR ''e'', CHR ''E''}" using exponent_text_hd by blast
        with \<open>ex \<noteq> []\<close> e(1) Cons have "c \<in> {CHR ''e'', CHR ''E''}" by (cases ex) auto
        with False show False by simp
      qed
      with e show "is_suffix r2" by simp
    qed
    finally show ?thesis .
  qed
qed

lemma binary_exponent_iff:
  "(binary_exponent r2 \<noteq> None) =
     (\<exists>ex sf. r2 = ex @ sf \<and> exponent_text {CHR ''p'', CHR ''P''} ex \<and> is_suffix sf)"
proof (cases r2)
  case Nil
  then show ?thesis by (auto simp: binary_exponent_def exponent_text_def)
next
  case (Cons c t)
  show ?thesis
  proof (cases "c = CHR ''p'' \<or> c = CHR ''P''")
    case True
    have "(binary_exponent r2 \<noteq> None) = (exponent_part t \<noteq> None)"
      using True Cons by (auto simp: binary_exponent_def)
    also have "\<dots> = (\<exists>ex' sf. t = ex' @ sf \<and>
        (\<exists>sg ds. ex' = sg @ ds \<and> sign_text sg \<and> digits_text ds) \<and> is_suffix sf)"
      by (rule exponent_suffix_iff)
    also have "\<dots> = (\<exists>ex sf. r2 = ex @ sf \<and> exponent_text {CHR ''p'', CHR ''P''} ex \<and> is_suffix sf)"
    proof
      assume "\<exists>ex' sf. t = ex' @ sf \<and>
        (\<exists>sg ds. ex' = sg @ ds \<and> sign_text sg \<and> digits_text ds) \<and> is_suffix sf"
      then obtain ex' sf where "t = ex' @ sf"
        "\<exists>sg ds. ex' = sg @ ds \<and> sign_text sg \<and> digits_text ds" "is_suffix sf"
        by blast
      with True Cons have "r2 = (c # ex') @ sf \<and> exponent_text {CHR ''p'', CHR ''P''} (c # ex') \<and> is_suffix sf"
        by (auto simp: exponent_text_Cons)
      then show "\<exists>ex sf. r2 = ex @ sf \<and> exponent_text {CHR ''p'', CHR ''P''} ex \<and> is_suffix sf"
        by blast
    next
      assume "\<exists>ex sf. r2 = ex @ sf \<and> exponent_text {CHR ''p'', CHR ''P''} ex \<and> is_suffix sf"
      then obtain ex sf where e: "r2 = ex @ sf" "exponent_text {CHR ''p'', CHR ''P''} ex" "is_suffix sf"
        by blast
      then obtain c' ex' where ex: "ex = c' # ex'" by (cases ex) (auto simp: exponent_text_def)
      with e(1) Cons have "t = ex' @ sf" by simp
      moreover from e(2) ex have "\<exists>sg ds. ex' = sg @ ds \<and> sign_text sg \<and> digits_text ds"
        by (simp add: exponent_text_Cons)
      ultimately show "\<exists>ex' sf. t = ex' @ sf \<and>
        (\<exists>sg ds. ex' = sg @ ds \<and> sign_text sg \<and> digits_text ds) \<and> is_suffix sf"
        using e(3) by blast
    qed
    finally show ?thesis .
  next
    case False
    have "\<not> (\<exists>ex sf. r2 = ex @ sf \<and> exponent_text {CHR ''p'', CHR ''P''} ex \<and> is_suffix sf)"
    proof
      assume "\<exists>ex sf. r2 = ex @ sf \<and> exponent_text {CHR ''p'', CHR ''P''} ex \<and> is_suffix sf"
      then obtain ex sf where e: "r2 = ex @ sf" "exponent_text {CHR ''p'', CHR ''P''} ex" by blast
      from exponent_text_hd [OF e(2)] e(1) Cons have "c \<in> {CHR ''p'', CHR ''P''}"
        by (cases ex) auto
      with False show False by simp
    qed
    with False Cons show ?thesis by (auto simp: binary_exponent_def)
  qed
qed

lemma decimal_literal_iff: "(decimal_literal neg r \<noteq> None) = decimal_text r"
proof
  assume a: "decimal_literal neg r \<noteq> None"
  obtain ip dot fp r2 where m: "mantissa is_digit r = (ip, dot, fp, r2)"
    by (cases "mantissa is_digit r") auto
  from a m have ne: "ip @ fp \<noteq> []" and ex: "decimal_exponent r2 \<noteq> None"
    by (auto simp: decimal_literal_def split: if_splits option.splits)
  from ex obtain ex sf where r2: "r2 = ex @ sf" "ex = [] \<or> exponent_text {CHR ''e'', CHR ''E''} ex"
    "is_suffix sf"
    unfolding decimal_exponent_iff by blast
  from mantissa_sound [OF m] r2(1)
  have "r = ip @ (if dot then ''.'' else []) @ fp @ ex @ sf" "list_all is_digit ip"
    "list_all is_digit fp" "(if dot then ''.'' else []) = ''.'' \<or> ((if dot then ''.'' else []) = [] \<and> fp = [])"
    by auto
  with ne r2(2,3) show "decimal_text r"
    unfolding decimal_text_def by blast
next
  assume "decimal_text r"
  then obtain ip dot fp ex sf where d: "r = ip @ dot @ fp @ ex @ sf" "list_all is_digit ip"
    "list_all is_digit fp" "dot = ''.'' \<or> (dot = [] \<and> fp = [])" "ip @ fp \<noteq> []"
    "ex = [] \<or> exponent_text {CHR ''e'', CHR ''E''} ex" "is_suffix sf"
    unfolding decimal_text_def by blast
  let ?b = "dot = ''.''"
  have dots: "dot = (if ?b then ''.'' else [])" using d(4) by auto
  have hd: "ex @ sf = [] \<or> (\<not> is_digit (hd (ex @ sf)) \<and> (?b \<or> hd (ex @ sf) \<noteq> CHR ''.''))"
  proof (cases "ex = []")
    case True
    with d(7) show ?thesis by (auto simp: is_suffix_def is_digit_def)
  next
    case False
    with d(6) have "hd ex \<in> {CHR ''e'', CHR ''E''}" using exponent_text_hd by blast
    with False show ?thesis by (auto simp: is_digit_def)
  qed
  have nd: "\<not> is_digit (CHR ''.'')" by (simp add: is_digit_def)
  have bf: "?b \<or> fp = []" using d(4) by auto
  have "mantissa is_digit (ip @ (if ?b then ''.'' else []) @ fp @ ex @ sf) = (ip, ?b, fp, ex @ sf)"
    by (rule mantissa_complete [OF d(2) d(3) nd bf hd])
  with dots d(1) have m: "mantissa is_digit r = (ip, ?b, fp, ex @ sf)" by simp
  have "decimal_exponent (ex @ sf) \<noteq> None"
    unfolding decimal_exponent_iff using d(6,7) by blast
  with m d(5) show "decimal_literal neg r \<noteq> None"
    by (auto simp: decimal_literal_def)
qed

lemma hex_literal_iff:
  "(hex_literal neg r \<noteq> None) =
     hex_body_text r"
proof
  assume a: "hex_literal neg r \<noteq> None"
  obtain ip dot fp r2 where m: "mantissa is_hex_digit r = (ip, dot, fp, r2)"
    by (cases "mantissa is_hex_digit r") auto
  from a m have ne: "\<not> ((ip = [] \<and> fp = []) \<or> (ip = [] \<and> \<not> dot))" and ex: "binary_exponent r2 \<noteq> None"
    by (auto simp: hex_literal_def split: if_splits option.splits)
  from ex obtain ex sf where r2: "r2 = ex @ sf" "exponent_text {CHR ''p'', CHR ''P''} ex" "is_suffix sf"
    unfolding binary_exponent_iff by blast
  let ?d = "if dot then ''.'' else []"
  from mantissa_sound [OF m] r2(1)
  have s: "r = ip @ ?d @ fp @ ex @ sf" "list_all is_hex_digit ip" "list_all is_hex_digit fp" "dot \<or> fp = []"
    by auto
  from ne s(4) have "(ip \<noteq> [] \<and> fp = [] \<and> (?d = [] \<or> ?d = ''.'')) \<or> (?d = ''.'' \<and> fp \<noteq> [])"
    by auto
  with s r2(2,3) show "hex_body_text r"
    unfolding hex_body_text_def by blast
next
  assume "hex_body_text r"
  then obtain ip dot fp ex sf where d: "r = ip @ dot @ fp @ ex @ sf" "list_all is_hex_digit ip"
    "list_all is_hex_digit fp"
    "(ip \<noteq> [] \<and> fp = [] \<and> (dot = [] \<or> dot = ''.'')) \<or> (dot = ''.'' \<and> fp \<noteq> [])"
    "exponent_text {CHR ''p'', CHR ''P''} ex" "is_suffix sf"
    unfolding hex_body_text_def by blast
  let ?b = "dot = ''.''"
  have dots: "dot = (if ?b then ''.'' else [])" using d(4) by auto
  from exponent_text_hd [OF d(5)] have "ex \<noteq> []" "hd ex \<in> {CHR ''p'', CHR ''P''}" by simp_all
  then have hd: "ex @ sf = [] \<or> (\<not> is_hex_digit (hd (ex @ sf)) \<and> (?b \<or> hd (ex @ sf) \<noteq> CHR ''.''))"
    by (auto simp: is_hex_digit_def)
  have nd: "\<not> is_hex_digit (CHR ''.'')" by (simp add: is_hex_digit_def)
  have bf: "?b \<or> fp = []" using d(4) by auto
  have "mantissa is_hex_digit (ip @ (if ?b then ''.'' else []) @ fp @ ex @ sf) = (ip, ?b, fp, ex @ sf)"
    by (rule mantissa_complete [OF d(2) d(3) nd bf hd])
  with dots d(1) have m: "mantissa is_hex_digit r = (ip, ?b, fp, ex @ sf)" by simp
  have "binary_exponent (ex @ sf) \<noteq> None"
    unfolding binary_exponent_iff using d(5,6) by blast
  with m d(4) show "hex_literal neg r \<noteq> None"
    by (auto simp: hex_literal_def)
qed

lemma hex_text_iff:
  "hex_text r = (\<exists>x t. r = CHR ''0'' # x # t \<and> (x = CHR ''x'' \<or> x = CHR ''X'') \<and> hex_literal neg t \<noteq> None)"
  unfolding hex_literal_iff hex_text_def ..

lemma mantissa_non_digit:
  "\<not> is_digit c \<Longrightarrow> c \<noteq> CHR ''.'' \<Longrightarrow> mantissa is_digit (c # t) = ([], False, [], c # t)"
  by (simp add: mantissa_def)

lemma decimal_literal_non_digit:
  "\<not> is_digit c \<Longrightarrow> c \<noteq> CHR ''.'' \<Longrightarrow> decimal_literal neg (c # t) = None"
  by (simp add: decimal_literal_def mantissa_non_digit)

lemma decimal_literal_0x:
  "x = CHR ''x'' \<or> x = CHR ''X'' \<Longrightarrow> decimal_literal neg (CHR ''0'' # x # t) = None"
proof -
  assume x: "x = CHR ''x'' \<or> x = CHR ''X''"
  have d0: "is_digit (CHR ''0'')" by (simp add: is_digit_def)
  from x have nx: "\<not> is_digit x" "x \<noteq> CHR ''.''" by (auto simp: is_digit_def)
  from d0 nx have "mantissa is_digit (CHR ''0'' # x # t) = (''0'', False, [], x # t)"
    by (simp add: mantissa_def)
  moreover from x have "decimal_exponent (x # t) = None"
    by (auto simp: decimal_exponent_def is_suffix_def)
  ultimately show ?thesis by (simp add: decimal_literal_def)
qed

lemma decimal_literal_head:
  "decimal_literal neg (c # t) \<noteq> None \<Longrightarrow>
   c \<noteq> CHR ''N'' \<and> c \<noteq> CHR ''I'' \<and> c \<noteq> CHR ''+'' \<and> c \<noteq> CHR ''-'' \<and>
   \<not> (c = CHR ''0'' \<and> (case t of [] \<Rightarrow> False | x # t' \<Rightarrow> x = CHR ''x'' \<or> x = CHR ''X''))"
proof -
  assume a: "decimal_literal neg (c # t) \<noteq> None"
  have 1: "c \<noteq> CHR ''N'' \<and> c \<noteq> CHR ''I'' \<and> c \<noteq> CHR ''+'' \<and> c \<noteq> CHR ''-''"
  proof (rule ccontr)
    assume "\<not> ?thesis"
    then have "\<not> is_digit c" "c \<noteq> CHR ''.''" by (auto simp: is_digit_def)
    then have "decimal_literal neg (c # t) = None" by (rule decimal_literal_non_digit)
    with a show False by simp
  qed
  have 2: "\<not> (c = CHR ''0'' \<and> (case t of [] \<Rightarrow> False | x # t' \<Rightarrow> x = CHR ''x'' \<or> x = CHR ''X''))"
  proof
    assume h: "c = CHR ''0'' \<and> (case t of [] \<Rightarrow> False | x # t' \<Rightarrow> x = CHR ''x'' \<or> x = CHR ''X'')"
    then obtain x t' where t: "t = x # t'" "x = CHR ''x'' \<or> x = CHR ''X''"
      by (cases t) auto
    with h have "decimal_literal neg (c # t) = None" by (simp add: decimal_literal_0x)
    with a show False by simp
  qed
  from 1 2 show ?thesis by simp
qed

lemma decimal_literal_Nil: "decimal_literal neg [] = None"
  by (simp add: decimal_literal_def mantissa_def)

lemma take_sign_sound: "take_sign t = (neg, r) \<Longrightarrow> \<exists>sg. t = sg @ r \<and> sign_text sg"
  by (auto simp: take_sign_def sign_text_def split: list.splits if_splits)

lemma take_sign_complete:
  "sign_text sg \<Longrightarrow> r \<noteq> [] \<Longrightarrow> hd r \<noteq> CHR ''+'' \<Longrightarrow> hd r \<noteq> CHR ''-'' \<Longrightarrow>
   \<exists>neg. take_sign (sg @ r) = (neg, r)"
  by (cases r) (auto simp: take_sign_def sign_text_def)

text \<open>What the parser does once the sign is gone.\<close>

lemma unsigned_iff:
  "((case r of
        [] \<Rightarrow> None
      | c # t \<Rightarrow>
          if c = CHR ''N'' then (if r = ''NaN'' then Some NaN else None)
          else if c = CHR ''I'' then
            (if r = ''Infinity'' then Some (if neg then NegInf else PosInf) else None)
          else if c = CHR ''0'' \<and> (case t of [] \<Rightarrow> False | x # t' \<Rightarrow> x = CHR ''x'' \<or> x = CHR ''X'')
            then hex_literal neg (tl t)
          else decimal_literal neg r) \<noteq> None) =
   (r = ''NaN'' \<or> r = ''Infinity'' \<or> hex_text r \<or> decimal_text r)"
proof (cases r)
  case Nil
  then show ?thesis
    using decimal_literal_iff [of neg "[]"] by (auto simp: decimal_literal_Nil hex_text_def)
next
  case (Cons c t)
  have dh: "decimal_text r \<Longrightarrow> c \<noteq> CHR ''N'' \<and> c \<noteq> CHR ''I'' \<and>
      \<not> (c = CHR ''0'' \<and> (case t of [] \<Rightarrow> False | x # t' \<Rightarrow> x = CHR ''x'' \<or> x = CHR ''X''))"
    using decimal_literal_head [of neg c t] decimal_literal_iff [of neg r] Cons by simp
  have hh: "hex_text r = (c = CHR ''0'' \<and> (case t of [] \<Rightarrow> False | x # t' \<Rightarrow> x = CHR ''x'' \<or> x = CHR ''X'') \<and>
      hex_literal neg (tl t) \<noteq> None)"
    unfolding hex_text_iff [of r neg] using Cons by (cases t) auto
  show ?thesis
  proof (cases "c = CHR ''N''")
    case True
    with Cons dh hh show ?thesis by auto
  next
    case nN: False
    show ?thesis
    proof (cases "c = CHR ''I''")
      case True
      with Cons dh hh nN show ?thesis by auto
    next
      case nI: False
      show ?thesis
      proof (cases "c = CHR ''0'' \<and> (case t of [] \<Rightarrow> False | x # t' \<Rightarrow> x = CHR ''x'' \<or> x = CHR ''X'')")
        case True
        with Cons dh hh nN nI show ?thesis by auto
      next
        case False
        with Cons hh nN nI show ?thesis
          using decimal_literal_iff [of neg r] by auto
      qed
    qed
  qed
qed

lemma float_text_head:
  "r = ''NaN'' \<or> r = ''Infinity'' \<or> hex_text r \<or> decimal_text r \<Longrightarrow>
   r \<noteq> [] \<and> hd r \<noteq> CHR ''+'' \<and> hd r \<noteq> CHR ''-''"
proof -
  assume a: "r = ''NaN'' \<or> r = ''Infinity'' \<or> hex_text r \<or> decimal_text r"
  have "decimal_text r \<Longrightarrow> r \<noteq> [] \<and> hd r \<noteq> CHR ''+'' \<and> hd r \<noteq> CHR ''-''"
    using decimal_literal_iff [of False r] decimal_literal_head [of False "hd r" "tl r"]
    by (cases r) (auto simp: decimal_literal_Nil)
  with a show ?thesis by (auto simp: hex_text_def)
qed

lemma parseFloat_iff: "(parseFloat s \<noteq> None) = float_text (java_trim s)"
proof
  assume a: "parseFloat s \<noteq> None"
  obtain neg r where ts: "take_sign (java_trim s) = (neg, r)" by (cases "take_sign (java_trim s)")
  from take_sign_sound [OF ts] obtain sg where sg: "java_trim s = sg @ r" "sign_text sg" by blast
  from a ts have "r = ''NaN'' \<or> r = ''Infinity'' \<or> hex_text r \<or> decimal_text r"
    unfolding unsigned_iff [of r neg, symmetric] by (simp add: parseFloat_def)
  with sg show "float_text (java_trim s)" unfolding float_text_def by blast
next
  assume "float_text (java_trim s)"
  then obtain sg r where f: "java_trim s = sg @ r" "sign_text sg"
    "r = ''NaN'' \<or> r = ''Infinity'' \<or> hex_text r \<or> decimal_text r"
    unfolding float_text_def by blast
  from float_text_head [OF f(3)] take_sign_complete [OF f(2)]
  obtain neg where "take_sign (sg @ r) = (neg, r)" by blast
  with f(1) have ts: "take_sign (java_trim s) = (neg, r)" by simp
  from f(3) show "parseFloat s \<noteq> None"
    unfolding unsigned_iff [of r neg, symmetric] by (simp add: parseFloat_def ts)
qed

lemma special_literal_iff: "(special_literal t \<noteq> None) = special_name t"
  by (auto simp: special_literal_def special_name_def Let_def)



lemma cast_float_ansi_raises:
  "(cast_float True (Some t) = Inl (CastInvalidInput t)) = (\<not> numeric_text t)"
  using parseFloat_iff [of t] special_literal_iff [of t]
  by (auto simp: cast_float_def numeric_text_def split: option.splits)

subsection \<open>Rounding to single precision\<close>

























end
